theory Spec2Isabelle
  imports Main
begin

section \<open>JSON values and call records\<close>

text \<open>
  The monitor (\<^verbatim>\<open>src/monitor.py\<close>) works on decoded JSON. A call record is a Python
  dict from column names to values; the values the program looks at are texts, the
  sensitivity flag and absent columns. JSON numbers, arrays and nested objects are
  left out of the value type: on \<open>None\<close>, booleans and strings Python's \<open>==\<close> is
  structural equality, which is what set membership and the token comparison use.
\<close>

datatype json = JNull | JBool bool | JStr string

type_synonym call = "string \<rightharpoonup> json"

text \<open>Python truthiness: \<open>None\<close>, \<open>False\<close> and the empty string are falsy.\<close>

fun truthy :: "json \<Rightarrow> bool" where
  "truthy JNull = False"
| "truthy (JBool b) = b"
| "truthy (JStr s) = (s \<noteq> [])"

text \<open>\<open>str(v)\<close>, which an f-string applies to an interpolated value.\<close>

fun py_str :: "json \<Rightarrow> string" where
  "py_str JNull = ''None''"
| "py_str (JBool b) = (if b then ''True'' else ''False'')"
| "py_str (JStr s) = s"

text \<open>\<open>d.get(k, default)\<close> and \<open>d.get(k)\<close> (default \<open>None\<close>).\<close>

definition get_default :: "call \<Rightarrow> string \<Rightarrow> json \<Rightarrow> json" where
  "get_default d k dflt = (case d k of None \<Rightarrow> dflt | Some v \<Rightarrow> v)"

definition get :: "call \<Rightarrow> string \<Rightarrow> json" where
  "get d k = get_default d k JNull"

text \<open>\<open>a or b\<close>: the first operand when it is truthy, the second otherwise.\<close>

definition py_or :: "json \<Rightarrow> json \<Rightarrow> json" where
  "py_or a b = (if truthy a then a else b)"

text \<open>\<open>sep.join(xs)\<close>.\<close>

fun join :: "string \<Rightarrow> string list \<Rightarrow> string" where
  "join sep [] = []"
| "join sep [x] = x"
| "join sep (x # y # ys) = x @ sep @ join sep (y # ys)"

section \<open>Timestamps\<close>

text \<open>
  \<open>format_call\<close> hands the timestamp to the standard library:
  \<^verbatim>\<open>datetime.fromisoformat(received.replace("Z", "+00:00"))\<close> and
  \<^verbatim>\<open>dt.strftime("%-m/%-d/%Y %-I:%M %p")\<close>. Neither is code of the repository.
  \<open>datetime.fromisoformat\<close> is a parameter of the formatter, and of everything that
  calls it: a function from strings to \<open>datetime\<close> values that returns \<open>None\<close> where the
  library raises \<open>ValueError\<close>. Which strings it reads depends on the version of the
  library, and no statement below depends on that: each holds for every such function,
  and says so where it needs what the library returns on a given string.
\<close>

text \<open>The fields of a \<open>datetime\<close> object; \<open>dt_utcoffset\<close> is \<open>None\<close> for a naive one.\<close>

record datetime =
  dt_year :: nat
  dt_month :: nat
  dt_day :: nat
  dt_hour :: nat
  dt_minute :: nat
  dt_second :: nat
  dt_microsecond :: nat
  dt_utcoffset :: "int option"

type_synonym isoparser = "string \<Rightarrow> datetime option"

text \<open>Decimal numerals, without padding and padded to two digits (\<open>%M\<close>).\<close>

definition digit_char :: "nat \<Rightarrow> char" where
  "digit_char n = char_of (48 + n)"

function show_nat :: "nat \<Rightarrow> string" where
  "show_nat n = (if n < 10 then [digit_char n] else show_nat (n div 10) @ [digit_char (n mod 10)])"
  by pat_completeness auto
termination
  by (relation "measure id") auto

declare show_nat.simps [simp del]

definition pad2 :: "nat \<Rightarrow> string" where
  "pad2 n = (if n < 10 then CHR ''0'' # show_nat n else show_nat n)"

text \<open>
  \<^verbatim>\<open>strftime("%-m/%-d/%Y %-I:%M %p")\<close> in the C locale: month, day and the 12-hour clock
  without padding (\<open>%-I\<close> shows hour 0 and hour 12 as 12), the minute on two digits,
  then AM or PM. The fields are shown as parsed: an offset does not shift them. The year
  is printed as the C library prints it, without padding.
\<close>

definition hour12 :: "nat \<Rightarrow> nat" where
  "hour12 h = (if h mod 12 = 0 then 12 else h mod 12)"

definition strftime :: "datetime \<Rightarrow> string" where
  "strftime dt =
     show_nat (dt_month dt) @ ''/'' @ show_nat (dt_day dt) @ ''/'' @ show_nat (dt_year dt) @ '' '' @
     show_nat (hour12 (dt_hour dt)) @ '':'' @ pad2 (dt_minute dt) @ '' '' @
     (if dt_hour dt < 12 then ''AM'' else ''PM'')"

text \<open>\<open>s.replace("Z", "+00:00")\<close>: every \<open>Z\<close> of the string is replaced.\<close>

definition replace_Z :: "string \<Rightarrow> string" where
  "replace_Z s = concat (map (\<lambda>c. if c = CHR ''Z'' then ''+00:00'' else [c]) s)"

section \<open>The formatter\<close>

text \<open>
  The \<open>try\<close> block of \<open>format_call\<close> (lines 57 to 61). The bare \<open>except\<close> catches the
  \<open>ValueError\<close> of a string that does not parse and the \<open>AttributeError\<close> of a value
  that is no string (it has no \<open>replace\<close>); either way the raw value is shown.
\<close>

definition format_received :: "isoparser \<Rightarrow> json \<Rightarrow> string" where
  "format_received fromisoformat received =
     (case received of
        JStr s \<Rightarrow> (case fromisoformat (replace_Z s) of Some dt \<Rightarrow> strftime dt | None \<Rightarrow> s)
      | _ \<Rightarrow> py_str received)"

text \<open>The list \<open>lines\<close> of \<open>format_call\<close> as it stands at line 81.\<close>

definition format_lines :: "isoparser \<Rightarrow> call \<Rightarrow> string list" where
  "format_lines fromisoformat call =
     (let received = get_default call ''received_datetime'' (JStr '''');
          received_formatted =
            (if truthy received then format_received fromisoformat received
             else ''Unknown time'');
          call_type = py_or (get call ''call_type_original_desc'') (JStr ''Unknown'');
          intersection = py_or (get call ''intersection_name'') (JStr ''Unknown location'');
          neighborhood = py_or (get call ''analysis_neighborhood'') (JStr '''');
          agency = py_or (get call ''agency'') (JStr ''Unknown agency'');
          sensitive = get_default call ''sensitive_call'' (JBool False);
          intersection =
            (if truthy sensitive then JStr ''[Sensitive - location suppressed]'' else intersection);
          lines = [''Time: '' @ received_formatted,
                   ''Type: '' @ py_str call_type,
                   ''Location: '' @ py_str intersection];
          lines = (if truthy neighborhood \<and> \<not> truthy sensitive
                   then lines @ [''Neighborhood: '' @ py_str neighborhood] else lines)
      in lines @ [''Agency: '' @ py_str agency])"

definition format_call :: "isoparser \<Rightarrow> call \<Rightarrow> string" where
  "format_call fromisoformat call = join ''\<newline>'' (format_lines fromisoformat call)"

section \<open>The network, the state file and the effects of a run\<close>

text \<open>
  A run talks to three endpoints through the \<open>requests\<close> library and reads and writes
  one file. What the network answers is the input of a run: a request either gets no
  response (\<open>requests.get\<close> or \<open>requests.post\<close> raises: connection error, timeout) or a
  response with a status code and a body. The body of a GET is decoded by
  \<open>resp.json()\<close>, which raises on a body that is no JSON (\<open>None\<close> below).
\<close>

datatype 'a reply = No_response | Response nat 'a

datatype error = ConnectionError | HTTPError nat | JSONDecodeError

text \<open>
  \<open>resp.raise_for_status()\<close> of \<open>requests\<close>: an \<open>HTTPError\<close> for a 4xx or 5xx status,
  nothing otherwise.
\<close>

definition raise_for_status :: "nat \<Rightarrow> error option" where
  "raise_for_status code = (if 400 \<le> code \<and> code < 600 then Some (HTTPError code) else None)"

text \<open>The persisted state: the JSON object of \<open>.last_state.json\<close>.\<close>

record state =
  seen_ids :: "json list"
  rows_updated_at :: json

record net =
  metadata_reply :: "call option reply"
  records_reply :: "call list option reply"
  post_reply :: "nat \<Rightarrow> unit reply"

text \<open>
  \<open>post_reply net k\<close> is what the \<open>k\<close>-th POST of the run meets (counting from 0).
  The effects of a run are kept in a trace; the informational \<open>print\<close>s are left out.
\<close>

datatype event =
    Get_metadata
  | Get_records nat
  | Post string string "unit reply"
  | Sleep nat
  | Write_state state
  | Print_error error

record world =
  state_file :: "state option"
  posts_made :: nat
  trace :: "event list"

definition emit :: "event \<Rightarrow> world \<Rightarrow> world" where
  "emit e w = w\<lparr>trace := trace w @ [e]\<rparr>"

definition sleep :: "nat \<Rightarrow> world \<Rightarrow> world" where
  "sleep n w = emit (Sleep n) w"

text \<open>
  \<open>load_state\<close>: the parsed file, or the default when the file does not exist. (A key
  missing from the file reads as the same default, through \<open>state.get\<close>.)
\<close>

definition load_state :: "world \<Rightarrow> state" where
  "load_state w =
     (case state_file w of
        Some st \<Rightarrow> st
      | None \<Rightarrow> \<lparr>seen_ids = [], rows_updated_at = JNull\<rparr>)"

definition save_state :: "state \<Rightarrow> world \<Rightarrow> world" where
  "save_state st w = emit (Write_state st) (w\<lparr>state_file := Some st\<rparr>)"

definition get_rows_updated_at :: "net \<Rightarrow> world \<Rightarrow> (error + json) \<times> world" where
  "get_rows_updated_at net w =
     (let w1 = emit Get_metadata w in
      case metadata_reply net of
        No_response \<Rightarrow> (Inl ConnectionError, w1)
      | Response code body \<Rightarrow>
          (case raise_for_status code of
             Some e \<Rightarrow> (Inl e, w1)
           | None \<Rightarrow>
               (case body of
                  None \<Rightarrow> (Inl JSONDecodeError, w1)
                | Some obj \<Rightarrow> (Inr (get obj ''rowsUpdatedAt''), w1))))"

definition fetch_recent_calls :: "net \<Rightarrow> nat \<Rightarrow> world \<Rightarrow> (error + call list) \<times> world" where
  "fetch_recent_calls net limit w =
     (let w1 = emit (Get_records limit) w in
      case records_reply net of
        No_response \<Rightarrow> (Inl ConnectionError, w1)
      | Response code body \<Rightarrow>
          (case raise_for_status code of
             Some e \<Rightarrow> (Inl e, w1)
           | None \<Rightarrow>
               (case body of
                  None \<Rightarrow> (Inl JSONDecodeError, w1)
                | Some calls \<Rightarrow> (Inr calls, w1))))"

section \<open>The notifier\<close>

text \<open>\<open>send_notification\<close>: one POST; \<open>None\<close> when nothing was raised.\<close>

definition send_notification :: "net \<Rightarrow> string \<Rightarrow> string \<Rightarrow> world \<Rightarrow> error option \<times> world" where
  "send_notification net title message w =
     (let r = post_reply net (posts_made w);
          w1 = emit (Post title message r) (w\<lparr>posts_made := Suc (posts_made w)\<rparr>)
      in case r of
           No_response \<Rightarrow> (Some ConnectionError, w1)
         | Response code body \<Rightarrow> (raise_for_status code, w1))"

definition max_backoff :: nat where
  "max_backoff = 64"

text \<open>
  The \<open>for attempt in range(max_retries)\<close> loop of \<open>send_notification_with_backoff\<close>,
  over the attempts still to make, with the current \<open>backoff\<close>.
\<close>

fun backoff_loop ::
  "net \<Rightarrow> string \<Rightarrow> string \<Rightarrow> nat \<Rightarrow> nat list \<Rightarrow> nat \<Rightarrow> world \<Rightarrow> bool \<times> world" where
  "backoff_loop net title message max_retries [] backoff w = (False, w)"
| "backoff_loop net title message max_retries (attempt # rest) backoff w =
     (case send_notification net title message w of
        (None, w1) \<Rightarrow> (True, w1)
      | (Some (HTTPError code), w1) \<Rightarrow>
          if code = 429 then
            if int attempt < int max_retries - 1
            then backoff_loop net title message max_retries rest
                   (min (backoff * 2) max_backoff) (sleep backoff w1)
            else (False, w1)
          else (False, w1)
      | (Some e, w1) \<Rightarrow> (False, w1))"

definition send_notification_with_backoff ::
  "net \<Rightarrow> string \<Rightarrow> string \<Rightarrow> nat \<Rightarrow> world \<Rightarrow> bool \<times> world" where
  "send_notification_with_backoff net title message max_retries w =
     backoff_loop net title message max_retries [0..<max_retries] 2 w"

section \<open>The run controller\<close>

text \<open>The identity of a record: \<open>c.get("id") or c.get("cad_number")\<close>.\<close>

definition call_identity :: "call \<Rightarrow> json" where
  "call_identity c = py_or (get c ''id'') (get c ''cad_number'')"

definition call_title :: "call \<Rightarrow> string" where
  "call_title c =
     ''SF Dispatch - '' @ py_str (py_or (get c ''call_type_original_desc'') (JStr ''Unknown''))"

text \<open>
  The loop over \<open>enumerate(new_calls)\<close> (lines 158 to 176), with \<open>n = len(new_calls)\<close> and
  the \<open>sent_call_ids\<close> gathered so far. The notifier is called with its default
  \<open>max_retries=5\<close>.
\<close>

fun notify_loop ::
  "isoparser \<Rightarrow> net \<Rightarrow> nat \<Rightarrow> (nat \<times> call) list \<Rightarrow> json list \<Rightarrow> world \<Rightarrow> json list \<times> world" where
  "notify_loop fromisoformat net n [] sent_call_ids w = (sent_call_ids, w)"
| "notify_loop fromisoformat net n ((i, c) # rest) sent_call_ids w =
     (case send_notification_with_backoff net (call_title c) (format_call fromisoformat c) 5 w of
        (True, w1) \<Rightarrow>
          let call_id = call_identity c;
              sent_call_ids1 = (if truthy call_id then sent_call_ids @ [call_id] else sent_call_ids);
              w2 = (if int i < int n - 1 then sleep 1 w1 else w1)
          in notify_loop fromisoformat net n rest sent_call_ids1 w2
      | (False, w1) \<Rightarrow> (sent_call_ids, w1))"

text \<open>
  \<open>list(seen_ids)\<close> of a Python set: its elements once each. Python fixes no order;
  the model keeps the order of the file, and every statement below reads the result
  as a set.
\<close>

definition list_of_seen :: "json list \<Rightarrow> json list" where
  "list_of_seen xs = remdups xs"

text \<open>
  The new calls (lines 146 to 151): none on a first run, otherwise the fetched records
  whose identity is not in the seen-set, in fetch order.
\<close>

definition find_new_calls :: "json list \<Rightarrow> call list \<Rightarrow> call list" where
  "find_new_calls seen calls =
     (if seen = [] then [] else filter (\<lambda>c. call_identity c \<notin> set seen) calls)"

text \<open>
  \<open>check_and_notify\<close>. An exception of the metadata query or of the fetch leaves the
  function at that point (\<open>Inl\<close>). On the first-run branch the source computes
  \<open>current_ids\<close>, prints how many there are, and uses them no further.
\<close>

definition check_and_notify :: "isoparser \<Rightarrow> net \<Rightarrow> world \<Rightarrow> (error + unit) \<times> world" where
  "check_and_notify fromisoformat net w =
     (let st = load_state w;
          seen = seen_ids st;
          last_updated = rows_updated_at st
      in case get_rows_updated_at net w of
           (Inl e, w1) \<Rightarrow> (Inl e, w1)
         | (Inr current_updated, w1) \<Rightarrow>
             if current_updated = last_updated \<and> seen \<noteq> [] then (Inr (), w1)
             else
               (case fetch_recent_calls net 200 w1 of
                  (Inl e, w2) \<Rightarrow> (Inl e, w2)
                | (Inr calls, w2) \<Rightarrow>
                    let new_calls = find_new_calls seen calls;
                        (sent_call_ids, w3) =
                          (if new_calls \<noteq> []
                           then notify_loop fromisoformat net (length new_calls) (enumerate 0 new_calls) [] w2
                           else ([], w2));
                        updated_seen_ids = list_of_seen seen @ sent_call_ids
                    in (Inr (),
                        save_state \<lparr>seen_ids = updated_seen_ids,
                                    rows_updated_at = current_updated\<rparr> w3)))"

text \<open>\<open>main\<close>: the exit code of the process and the world it leaves.\<close>

definition main :: "isoparser \<Rightarrow> net \<Rightarrow> world \<Rightarrow> nat \<times> world" where
  "main fromisoformat net w =
     (case check_and_notify fromisoformat net w of
        (Inl e, w1) \<Rightarrow> (1, emit (Print_error e) w1)
      | (Inr u, w1) \<Rightarrow> (0, w1))"

text \<open>A process starts with the file as the last run left it and has done nothing yet.\<close>

definition start :: "state option \<Rightarrow> world" where
  "start file = \<lparr>state_file = file, posts_made = 0, trace = []\<rparr>"

section \<open>Reading a trace\<close>

text \<open>
  What the statements below say about a run is read off its trace. A POST is accepted
  when \<open>send_notification\<close> raises nothing on its reply (a 2xx status in particular); a
  reply is a hard failure when it is no response at all or an error status other than
  429.
\<close>

definition accepted :: "unit reply \<Rightarrow> bool" where
  "accepted r = (case r of No_response \<Rightarrow> False | Response code b \<Rightarrow> raise_for_status code = None)"

definition hard_failure :: "unit reply \<Rightarrow> bool" where
  "hard_failure r =
     (case r of No_response \<Rightarrow> True | Response code b \<Rightarrow> 400 \<le> code \<and> code < 600 \<and> code \<noteq> 429)"

text \<open>The notifications confirmed delivered: title and body of every accepted POST.\<close>

fun delivered :: "event list \<Rightarrow> (string \<times> string) list" where
  "delivered [] = []"
| "delivered (Post title message r # es) =
     (if accepted r then (title, message) # delivered es else delivered es)"
| "delivered (e # es) = delivered es"

text \<open>The durations slept, in order.\<close>

fun sleeps :: "event list \<Rightarrow> nat list" where
  "sleeps [] = []"
| "sleeps (Sleep n # es) = n # sleeps es"
| "sleeps (e # es) = sleeps es"

text \<open>
  The events of \<open>k\<close> rate-limited attempts in a row, the first followed by a sleep of
  \<open>backoff\<close> seconds.
\<close>

fun retry_events :: "string \<Rightarrow> string \<Rightarrow> nat \<Rightarrow> nat \<Rightarrow> event list" where
  "retry_events title message backoff 0 = []"
| "retry_events title message backoff (Suc k) =
     Post title message (Response 429 ()) # Sleep backoff #
     retry_events title message (min (backoff * 2) 64) k"

section \<open>Example inputs\<close>

text \<open>
  A stand-in for the library where a statement is evaluated at a concrete input: it
  reads the two timestamps of the examples as the library does,
  \<open>datetime(2026, 2, 4, 16, 58, 12)\<close> and \<open>datetime(2026, 2, 4, 9, 5, tzinfo=utc)\<close>,
  and answers \<open>None\<close> to every other string.
\<close>

definition example_datetime :: datetime where
  "example_datetime =
     \<lparr>dt_year = 2026, dt_month = 2, dt_day = 4, dt_hour = 16, dt_minute = 58, dt_second = 12,
      dt_microsecond = 0, dt_utcoffset = None\<rparr>"

definition zulu_datetime :: datetime where
  "zulu_datetime =
     \<lparr>dt_year = 2026, dt_month = 2, dt_day = 4, dt_hour = 9, dt_minute = 5, dt_second = 0,
      dt_microsecond = 0, dt_utcoffset = Some 0\<rparr>"

definition example_timestamps :: isoparser where
  "example_timestamps s =
     (if s = ''2026-02-04T16:58:12.000'' then Some example_datetime
      else if s = ''2026-02-04T09:05:00+00:00'' then Some zulu_datetime
      else None)"

text \<open>The example record of the specification (the sample of \<^verbatim>\<open>src/test_push.py\<close>).\<close>

definition example_call :: call where
  "example_call =
     [''received_datetime'' \<mapsto> JStr ''2026-02-04T16:58:12.000'',
      ''call_type_original_desc'' \<mapsto> JStr ''SIT/LIE ENFORCEMENT'',
      ''intersection_name'' \<mapsto> JStr (''CASTRO ST '' @ [CHR 0x5C] @ '' STATES ST''),
      ''analysis_neighborhood'' \<mapsto> JStr ''Castro/Upper Market'',
      ''agency'' \<mapsto> JStr ''Police'',
      ''sensitive_call'' \<mapsto> JBool False]"

definition example_body :: string where
  "example_body =
     ''Time: 2/4/2026 4:58 PM\<newline>Type: SIT/LIE ENFORCEMENT\<newline>Location: CASTRO ST '' @ [CHR 0x5C] @
     '' STATES ST\<newline>Neighborhood: Castro/Upper Market\<newline>Agency: Police''"

definition sensitive_example :: call where
  "sensitive_example = example_call(''sensitive_call'' \<mapsto> JBool True)"

definition zulu_example :: call where
  "zulu_example = [''received_datetime'' \<mapsto> JStr ''2026-02-04T09:05:00Z'']"

definition garbled_example :: call where
  "garbled_example = [''received_datetime'' \<mapsto> JStr ''yesterday'']"

text \<open>A network that answers the metadata query with a token, the fetch with records.\<close>

definition net_of :: "string \<Rightarrow> call list \<Rightarrow> (nat \<Rightarrow> unit reply) \<Rightarrow> net" where
  "net_of token calls replies =
     \<lparr>metadata_reply = Response 200 (Some [''rowsUpdatedAt'' \<mapsto> JStr token]),
      records_reply = Response 200 (Some calls),
      post_reply = replies\<rparr>"

definition call_with_id :: "string \<Rightarrow> call" where
  "call_with_id i = [''id'' \<mapsto> JStr i]"

text \<open>Three ways the push endpoint can answer.\<close>

definition limited_twice :: "nat \<Rightarrow> unit reply" where
  "limited_twice k = (if k < 2 then Response 429 () else Response 200 ())"

definition always_limited :: "nat \<Rightarrow> unit reply" where
  "always_limited k = Response 429 ()"

definition server_error :: "nat \<Rightarrow> unit reply" where
  "server_error k = Response 500 ()"

text \<open>
  What the two GETs of a run return. Neither depends on the world: the result of
  \<open>get_rows_updated_at\<close> and of \<open>fetch_recent_calls(limit=200)\<close> is read off the network.
\<close>

definition metadata_result :: "net \<Rightarrow> error + json" where
  "metadata_result net = fst (get_rows_updated_at net (start None))"

definition records_result :: "net \<Rightarrow> error + call list" where
  "records_result net = fst (fetch_recent_calls net 200 (start None))"

definition always_ok :: "nat \<Rightarrow> unit reply" where
  "always_ok k = Response 200 ()"

definition seen_x :: state where
  "seen_x = \<lparr>seen_ids = [JStr ''X''], rows_updated_at = JStr ''t0''\<rparr>"

text \<open>A run that finds one new call and delivers its notification.\<close>

definition net_a :: "string \<Rightarrow> net" where
  "net_a token = net_of token [call_with_id ''A''] always_ok"

definition empty_body :: string where
  "empty_body =
     ''Time: Unknown time\<newline>Type: Unknown\<newline>Location: Unknown location\<newline>Agency: Unknown agency''"

definition seen_xa :: state where
  "seen_xa = \<lparr>seen_ids = [JStr ''X'', JStr ''A''], rows_updated_at = JStr ''t1''\<rparr>"

text \<open>Three new calls, the second of which the push endpoint refuses.\<close>

definition second_refused :: "nat \<Rightarrow> unit reply" where
  "second_refused k = (if k = 0 then Response 200 () else Response 500 ())"

definition net_abc :: net where
  "net_abc = net_of ''t1'' [call_with_id ''A'', call_with_id ''B'', call_with_id ''C'']
               second_refused"

text \<open>A record with neither \<open>id\<close> nor \<open>cad_number\<close>.\<close>

definition anonymous_call :: call where
  "anonymous_call = [''agency'' \<mapsto> JStr ''Police'']"

definition anonymous_body :: string where
  "anonymous_body =
     ''Time: Unknown time\<newline>Type: Unknown\<newline>Location: Unknown location\<newline>Agency: Police''"

definition net_anonymous :: net where
  "net_anonymous = net_of ''t1'' [anonymous_call] always_ok"

definition seen_x1 :: state where
  "seen_x1 = \<lparr>seen_ids = [JStr ''X''], rows_updated_at = JStr ''t1''\<rparr>"

text \<open>The same three calls, with a push endpoint that accepts everything.\<close>

definition net_abc_ok :: net where
  "net_abc_ok = net_of ''t1'' [call_with_id ''A'', call_with_id ''B'', call_with_id ''C'']
                  always_ok"

definition fresh_t1 :: state where
  "fresh_t1 = \<lparr>seen_ids = [], rows_updated_at = JStr ''t1''\<rparr>"

section \<open>The formatter: redaction and the shape of the body\<close>

lemma format_lines_shape:
  "format_lines fromisoformat c =
     [''Time: '' @ (let received = get_default c ''received_datetime'' (JStr [])
                    in if truthy received then format_received fromisoformat received else ''Unknown time''),
      ''Type: '' @ py_str (py_or (get c ''call_type_original_desc'') (JStr ''Unknown'')),
      ''Location: '' @
         (if truthy (get_default c ''sensitive_call'' (JBool False))
          then ''[Sensitive - location suppressed]''
          else py_str (py_or (get c ''intersection_name'') (JStr ''Unknown location'')))] @
     (if truthy (get c ''analysis_neighborhood'') \<and>
         \<not> truthy (get_default c ''sensitive_call'' (JBool False))
      then [''Neighborhood: '' @ py_str (get c ''analysis_neighborhood'')] else []) @
     [''Agency: '' @ py_str (py_or (get c ''agency'') (JStr ''Unknown agency''))]"
  by (simp add: format_lines_def Let_def py_or_def)

lemma sensitive_lines:
  assumes "truthy (get_default c ''sensitive_call'' (JBool False))"
  shows "format_lines fromisoformat c =
           [''Time: '' @ (let received = get_default c ''received_datetime'' (JStr [])
                          in if truthy received then format_received fromisoformat received else ''Unknown time''),
            ''Type: '' @ py_str (py_or (get c ''call_type_original_desc'') (JStr ''Unknown'')),
            ''Location: [Sensitive - location suppressed]'',
            ''Agency: '' @ py_str (py_or (get c ''agency'') (JStr ''Unknown agency''))]"
  using assms by (simp add: format_lines_shape)

text \<open>
  C6. For a record whose sensitivity flag is truthy (\<open>True\<close> in particular), the body
  has exactly four lines, Time, Type, Location and Agency; the Location line is the
  fixed marker, none of the lines is a Neighborhood line, and the body is the same
  whatever the record holds (or lacks) as location and neighborhood.
\<close>

theorem sensitive_redaction:
  assumes "truthy (get_default c ''sensitive_call'' (JBool False))"
  shows "format_call fromisoformat c = join ''\<newline>''
           [''Time: '' @ (let received = get_default c ''received_datetime'' (JStr [])
                          in if truthy received then format_received fromisoformat received else ''Unknown time''),
            ''Type: '' @ py_str (py_or (get c ''call_type_original_desc'') (JStr ''Unknown'')),
            ''Location: [Sensitive - location suppressed]'',
            ''Agency: '' @ py_str (py_or (get c ''agency'') (JStr ''Unknown agency''))]
       \<and> list_all (\<lambda>l. take 14 l \<noteq> ''Neighborhood: '') (format_lines fromisoformat c)
       \<and> format_call fromisoformat (c(''intersection_name'' := loc, ''analysis_neighborhood'' := nb)) = format_call fromisoformat c"
proof -
  let ?d = "c(''intersection_name'' := loc, ''analysis_neighborhood'' := nb)"
  have sens: "truthy (get_default ?d ''sensitive_call'' (JBool False))"
    using assms by (simp add: get_default_def)
  have "format_lines fromisoformat ?d = format_lines fromisoformat c"
    unfolding sensitive_lines[OF sens] sensitive_lines[OF assms]
    by (simp add: get_default_def get_def)
  moreover have "list_all (\<lambda>l. take 14 l \<noteq> ''Neighborhood: '') (format_lines fromisoformat c)"
    unfolding sensitive_lines[OF assms] by simp
  ultimately show ?thesis
    using sensitive_lines[OF assms] by (simp add: format_call_def)
qed

lemma sensitive_example_flag: "truthy (get_default sensitive_example ''sensitive_call'' (JBool False))"
  by (simp add: sensitive_example_def get_default_def)

lemma sensitive_example_body:
  "format_call example_timestamps sensitive_example =
     ''Time: 2/4/2026 4:58 PM\<newline>Type: SIT/LIE ENFORCEMENT\<newline>Location: [Sensitive - location suppressed]\<newline>Agency: Police''"
  unfolding sensitive_example_def example_call_def by code_simp

theorem sensitive_redaction_witness:
  "truthy (get_default sensitive_example ''sensitive_call'' (JBool False))
   \<and> format_call example_timestamps (sensitive_example(''intersection_name'' := None,
                                    ''analysis_neighborhood'' := Some (JStr ''Mission''))) =
     ''Time: 2/4/2026 4:58 PM\<newline>Type: SIT/LIE ENFORCEMENT\<newline>Location: [Sensitive - location suppressed]\<newline>Agency: Police''"
  using sensitive_redaction[OF sensitive_example_flag, where fromisoformat = example_timestamps
      and loc = None and nb = "Some (JStr ''Mission'')"]
    sensitive_example_flag sensitive_example_body
  by simp

section \<open>The formatter: timestamps, fallbacks and the example\<close>

lemma replace_Z_no_Z: "CHR ''Z'' \<notin> set s \<Longrightarrow> replace_Z s = s"
  by (induction s) (auto simp: replace_Z_def)

lemma replace_Z_trailing: "CHR ''Z'' \<notin> set s \<Longrightarrow> replace_Z (s @ ''Z'') = s @ ''+00:00''"
  using replace_Z_no_Z[of s] by (simp add: replace_Z_def)

lemma example_time: "strftime example_datetime = ''2/4/2026 4:58 PM''"
  unfolding example_datetime_def by code_simp

lemma example_formats:
  assumes "fromisoformat ''2026-02-04T16:58:12.000'' = Some example_datetime"
  shows "format_call fromisoformat example_call = example_body"
proof -
  have "replace_Z ''2026-02-04T16:58:12.000'' = ''2026-02-04T16:58:12.000''"
    by (rule replace_Z_no_Z) simp
  then have "format_received fromisoformat (JStr ''2026-02-04T16:58:12.000'') = ''2/4/2026 4:58 PM''"
    by (simp add: format_received_def assms example_time)
  then show ?thesis
    unfolding format_call_def format_lines_shape
    by (simp add: example_call_def example_body_def get_def get_default_def py_or_def)
qed

lemma time_line_parsed:
  assumes "c ''received_datetime'' = Some (JStr s)" and "s \<noteq> []"
    and "fromisoformat (replace_Z s) = Some dt"
  shows "hd (format_lines fromisoformat c) = ''Time: '' @ strftime dt"
  using assms by (simp add: format_lines_shape get_default_def format_received_def)

lemma time_line_raw:
  assumes "c ''received_datetime'' = Some (JStr s)" and "s \<noteq> []"
    and "fromisoformat (replace_Z s) = None"
  shows "hd (format_lines fromisoformat c) = ''Time: '' @ s"
  using assms by (simp add: format_lines_shape get_default_def format_received_def)

text \<open>
  C7. \<open>format_call\<close> returns a body for every record, whatever the library's parser
  does (every exception of its \<open>try\<close> block is a branch above, and nothing outside the
  block raises): the body is always the block Time, Type, Location, an optional
  Neighborhood, Agency. With a library that reads \<open>2026-02-04T16:58:12.000\<close> as
  \<open>datetime(2026, 2, 4, 16, 58, 12)\<close>, the example record formats to the five lines of
  the specification. For a timestamp with a trailing \<open>Z\<close> the library is asked about
  the same timestamp with \<open>+00:00\<close>; a non-empty timestamp the library parses is shown
  as month, day and 12-hour clock without padding, the minute on two digits, then AM
  or PM; one on which the library raises is shown as it is; each absent field has its
  fixed fallback.
\<close>

theorem format_call_contract:
  "(fromisoformat ''2026-02-04T16:58:12.000'' = Some example_datetime \<longrightarrow>
      format_call fromisoformat example_call = example_body)
 \<and> (\<exists>t ty loc ag. format_call fromisoformat c = join ''\<newline>''
       ([''Time: '' @ t, ''Type: '' @ ty, ''Location: '' @ loc] @
        (if truthy (get c ''analysis_neighborhood'') \<and>
            \<not> truthy (get_default c ''sensitive_call'' (JBool False))
         then [''Neighborhood: '' @ py_str (get c ''analysis_neighborhood'')] else []) @
        [''Agency: '' @ ag]))
 \<and> (c ''received_datetime'' = Some (JStr (s @ ''Z'')) \<and> CHR ''Z'' \<notin> set s \<and>
      fromisoformat (s @ ''+00:00'') = Some dt
     \<longrightarrow> hd (format_lines fromisoformat c) = ''Time: '' @ strftime dt)
 \<and> (c ''received_datetime'' = Some (JStr s) \<and> s \<noteq> [] \<and>
      fromisoformat (replace_Z s) = Some dt
     \<longrightarrow> hd (format_lines fromisoformat c) =
           ''Time: '' @ show_nat (dt_month dt) @ ''/'' @ show_nat (dt_day dt) @ ''/'' @
             show_nat (dt_year dt) @ '' '' @ show_nat (hour12 (dt_hour dt)) @ '':'' @
             pad2 (dt_minute dt) @ (if dt_hour dt < 12 then '' AM'' else '' PM''))
 \<and> (c ''received_datetime'' = Some (JStr s) \<and> s \<noteq> [] \<and>
      fromisoformat (replace_Z s) = None
     \<longrightarrow> hd (format_lines fromisoformat c) = ''Time: '' @ s)
 \<and> (c ''received_datetime'' = None \<longrightarrow> hd (format_lines fromisoformat c) = ''Time: Unknown time'')
 \<and> (c ''call_type_original_desc'' = None \<longrightarrow> format_lines fromisoformat c ! 1 = ''Type: Unknown'')
 \<and> (c ''intersection_name'' = None \<and> c ''sensitive_call'' = None
     \<longrightarrow> format_lines fromisoformat c ! 2 = ''Location: Unknown location'')
 \<and> (c ''agency'' = None \<longrightarrow> last (format_lines fromisoformat c) = ''Agency: Unknown agency'')"
proof (intro conjI impI)
  assume "fromisoformat ''2026-02-04T16:58:12.000'' = Some example_datetime"
  then show "format_call fromisoformat example_call = example_body"
    by (rule example_formats)
next
  show "\<exists>t ty loc ag. format_call fromisoformat c = join ''\<newline>''
       ([''Time: '' @ t, ''Type: '' @ ty, ''Location: '' @ loc] @
        (if truthy (get c ''analysis_neighborhood'') \<and>
            \<not> truthy (get_default c ''sensitive_call'' (JBool False))
         then [''Neighborhood: '' @ py_str (get c ''analysis_neighborhood'')] else []) @
        [''Agency: '' @ ag])"
    unfolding format_call_def by (subst format_lines_shape) blast
next
  assume "c ''received_datetime'' = Some (JStr (s @ ''Z'')) \<and> CHR ''Z'' \<notin> set s \<and>
      fromisoformat (s @ ''+00:00'') = Some dt"
  then show "hd (format_lines fromisoformat c) = ''Time: '' @ strftime dt"
    using time_line_parsed[of c "s @ ''Z''" fromisoformat dt] by (simp add: replace_Z_trailing)
next
  assume "c ''received_datetime'' = Some (JStr s) \<and> s \<noteq> [] \<and>
      fromisoformat (replace_Z s) = Some dt"
  then show "hd (format_lines fromisoformat c) =
           ''Time: '' @ show_nat (dt_month dt) @ ''/'' @ show_nat (dt_day dt) @ ''/'' @
             show_nat (dt_year dt) @ '' '' @ show_nat (hour12 (dt_hour dt)) @ '':'' @
             pad2 (dt_minute dt) @ (if dt_hour dt < 12 then '' AM'' else '' PM'')"
    using time_line_parsed[of c s fromisoformat dt] by (simp add: strftime_def)
next
  assume "c ''received_datetime'' = Some (JStr s) \<and> s \<noteq> [] \<and>
      fromisoformat (replace_Z s) = None"
  then show "hd (format_lines fromisoformat c) = ''Time: '' @ s"
    using time_line_raw[of c s fromisoformat] by simp
next
  assume "c ''received_datetime'' = None"
  then show "hd (format_lines fromisoformat c) = ''Time: Unknown time''"
    by (simp add: format_lines_shape get_default_def)
next
  assume "c ''call_type_original_desc'' = None"
  then show "format_lines fromisoformat c ! 1 = ''Type: Unknown''"
    by (simp add: format_lines_shape get_default_def get_def py_or_def)
next
  assume "c ''intersection_name'' = None \<and> c ''sensitive_call'' = None"
  then show "format_lines fromisoformat c ! 2 = ''Location: Unknown location''"
    by (simp add: format_lines_shape get_default_def get_def py_or_def)
next
  assume "c ''agency'' = None"
  then show "last (format_lines fromisoformat c) = ''Agency: Unknown agency''"
    by (simp add: format_lines_shape get_default_def get_def py_or_def)
qed

lemma zulu_time: "strftime zulu_datetime = ''2/4/2026 9:05 AM''"
  unfolding zulu_datetime_def by code_simp

theorem format_call_contract_witness:
  "format_call example_timestamps example_call = example_body
 \<and> hd (format_lines example_timestamps zulu_example) = ''Time: 2/4/2026 9:05 AM''
 \<and> format_lines example_timestamps zulu_example ! 1 = ''Type: Unknown''
 \<and> format_lines example_timestamps zulu_example ! 2 = ''Location: Unknown location''
 \<and> last (format_lines example_timestamps zulu_example) = ''Agency: Unknown agency''
 \<and> hd (format_lines example_timestamps garbled_example) = ''Time: yesterday''
 \<and> hd (format_lines example_timestamps Map.empty) = ''Time: Unknown time''"
proof -
  have z: "zulu_example ''received_datetime'' = Some (JStr (''2026-02-04T09:05:00'' @ ''Z''))"
    "CHR ''Z'' \<notin> set ''2026-02-04T09:05:00''"
    "zulu_example ''call_type_original_desc'' = None"
    "zulu_example ''intersection_name'' = None" "zulu_example ''sensitive_call'' = None"
    "zulu_example ''agency'' = None"
    by (simp_all add: zulu_example_def)
  have g: "garbled_example ''received_datetime'' = Some (JStr ''yesterday'')"
    "replace_Z ''yesterday'' = ''yesterday''"
    by (simp_all add: garbled_example_def replace_Z_def)
  have p: "example_timestamps ''2026-02-04T16:58:12.000'' = Some example_datetime"
    "example_timestamps (''2026-02-04T09:05:00'' @ ''+00:00'') = Some zulu_datetime"
    "example_timestamps ''yesterday'' = None"
    by (simp_all add: example_timestamps_def)
  note a = format_call_contract[where fromisoformat = example_timestamps and c = zulu_example
      and s = "''2026-02-04T09:05:00''" and dt = zulu_datetime]
  note b = format_call_contract[where fromisoformat = example_timestamps and c = garbled_example
      and s = "''yesterday''"]
  note c = format_call_contract[where fromisoformat = example_timestamps and c = Map.empty]
  have A: "format_call example_timestamps example_call = example_body"
    "hd (format_lines example_timestamps zulu_example) = ''Time: '' @ strftime zulu_datetime"
    "format_lines example_timestamps zulu_example ! 1 = ''Type: Unknown''"
    "format_lines example_timestamps zulu_example ! 2 = ''Location: Unknown location''"
    "last (format_lines example_timestamps zulu_example) = ''Agency: Unknown agency''"
    using a z p by blast+
  have B: "hd (format_lines example_timestamps garbled_example) = ''Time: '' @ ''yesterday''"
    using b g p by simp
  have C: "hd (format_lines example_timestamps Map.empty) = ''Time: Unknown time''"
    using c by simp
  show ?thesis
    using A B C by (simp add: zulu_time)
qed

section \<open>The notifier: retries and backoff\<close>

lemma emit_simps [simp]:
  "state_file (emit e w) = state_file w"
  "posts_made (emit e w) = posts_made w"
  "trace (emit e w) = trace w @ [e]"
  by (simp_all add: emit_def)

lemma sleep_simps [simp]:
  "state_file (sleep n w) = state_file w"
  "posts_made (sleep n w) = posts_made w"
  "trace (sleep n w) = trace w @ [Sleep n]"
  by (simp_all add: sleep_def)

lemma send_notification_world:
  "snd (send_notification net t m w) =
     w\<lparr>posts_made := Suc (posts_made w),
       trace := trace w @ [Post t m (post_reply net (posts_made w))]\<rparr>"
  by (simp add: send_notification_def Let_def emit_def split: reply.splits)

lemma send_notification_result:
  "fst (send_notification net t m w) =
     (case post_reply net (posts_made w) of
        No_response \<Rightarrow> Some ConnectionError
      | Response code b \<Rightarrow> raise_for_status code)"
  by (simp add: send_notification_def Let_def split: reply.splits)

lemma send_notification_eq:
  "send_notification net t m w =
     (case post_reply net (posts_made w) of
        No_response \<Rightarrow> Some ConnectionError
      | Response code b \<Rightarrow> raise_for_status code,
      w\<lparr>posts_made := Suc (posts_made w),
        trace := trace w @ [Post t m (post_reply net (posts_made w))]\<rparr>)"
  by (simp add: prod_eq_iff send_notification_world send_notification_result)

lemma raise_429 [simp]: "raise_for_status 429 = Some (HTTPError 429)"
  by (simp add: raise_for_status_def)

text \<open>One step of the loop, by the kind of reply.\<close>

lemma backoff_loop_accepted:
  "accepted (post_reply net (posts_made w)) \<Longrightarrow>
   backoff_loop net t m M (a # rest) b w =
     (True, w\<lparr>posts_made := Suc (posts_made w),
              trace := trace w @ [Post t m (post_reply net (posts_made w))]\<rparr>)"
  by (simp add: send_notification_eq accepted_def split: reply.splits)

lemma backoff_loop_hard:
  "hard_failure (post_reply net (posts_made w)) \<Longrightarrow>
   backoff_loop net t m M (a # rest) b w =
     (False, w\<lparr>posts_made := Suc (posts_made w),
               trace := trace w @ [Post t m (post_reply net (posts_made w))]\<rparr>)"
  by (auto simp add: send_notification_eq hard_failure_def raise_for_status_def split: reply.splits)

lemma backoff_loop_429:
  "post_reply net (posts_made w) = Response 429 () \<Longrightarrow>
   backoff_loop net t m M (a # rest) b w =
     (if int a < int M - 1
      then backoff_loop net t m M rest (min (b * 2) max_backoff)
             (w\<lparr>posts_made := Suc (posts_made w),
                trace := trace w @ [Post t m (Response 429 ()), Sleep b]\<rparr>)
      else (False, w\<lparr>posts_made := Suc (posts_made w),
                     trace := trace w @ [Post t m (Response 429 ())]\<rparr>))"
  by (simp add: send_notification_eq sleep_def emit_def)

lemma double_capped: "min (min (2 * 2 ^ a) 64 * 2) (64::nat) = min (2 * 2 ^ Suc a) 64"
  by (simp add: min_def)

lemma backoff_loop_rate_limited:
  "(\<forall>j<k. post_reply net (posts_made w + j) = Response 429 ()) \<Longrightarrow> a + k < M \<Longrightarrow>
   backoff_loop net t m M [a..<M] (min (2 * 2 ^ a) 64) w =
   backoff_loop net t m M [a + k..<M] (min (2 * 2 ^ (a + k)) 64)
     (w\<lparr>posts_made := posts_made w + k,
        trace := trace w @ retry_events t m (min (2 * 2 ^ a) 64) k\<rparr>)"
proof (induction k arbitrary: a w)
  case 0
  then show ?case by simp
next
  case (Suc k)
  let ?w1 = "w\<lparr>posts_made := Suc (posts_made w),
               trace := trace w @ [Post t m (Response 429 ()), Sleep (min (2 * 2 ^ a) 64)]\<rparr>"
  have first: "post_reply net (posts_made w) = Response 429 ()"
    using Suc.prems(1) by (metis add.right_neutral zero_less_Suc)
  have rest: "\<forall>j<k. post_reply net (posts_made ?w1 + j) = Response 429 ()"
    using Suc.prems(1) by (metis Suc_less_eq add_Suc_shift select_convs(2) surjective update_convs(2,3))
  have upt: "[a..<M] = a # [Suc a..<M]"
    using Suc.prems(2) by (simp add: upt_conv_Cons)
  have lt: "int a < int M - 1"
    using Suc.prems(2) by simp
  have "backoff_loop net t m M [a..<M] (min (2 * 2 ^ a) 64) w =
        backoff_loop net t m M [Suc a..<M] (min (2 * 2 ^ Suc a) 64) ?w1"
    unfolding upt using lt
    by (simp only: backoff_loop_429[OF first] if_True max_backoff_def double_capped)
  also have "\<dots> = backoff_loop net t m M [Suc a + k..<M] (min (2 * 2 ^ (Suc a + k)) 64)
     (?w1\<lparr>posts_made := posts_made ?w1 + k,
        trace := trace ?w1 @ retry_events t m (min (2 * 2 ^ Suc a) 64) k\<rparr>)"
    using Suc.prems(2) by (intro Suc.IH[OF rest]) simp
  finally show ?case
    by (simp add: double_capped del: power_Suc)
qed

lemma sleeps_append: "sleeps (xs @ ys) = sleeps xs @ sleeps ys"
  by (induction xs rule: sleeps.induct) simp_all

lemma sleeps_retry_events:
  "sleeps (retry_events t m (min (2 * 2 ^ a) 64) k) = map (\<lambda>j. min (2 * 2 ^ j) 64) [a..<a + k]"
proof (induction k arbitrary: a)
  case 0
  then show ?case by simp
next
  case (Suc k)
  have "[a..<a + Suc k] = a # [Suc a..<Suc a + k]"
    by (simp add: upt_conv_Cons)
  then show ?case
    using Suc.IH[of "Suc a"] by (simp add: double_capped del: power_Suc)
qed

lemma backoff_delays: "sleeps (retry_events t m 2 k) = map (\<lambda>j. min (2 * 2 ^ j) 64) [0..<k]"
  using sleeps_retry_events[of t m 0 k] by simp

lemma deliver_after_retries:
  assumes "\<forall>j<k. post_reply net (posts_made w + j) = Response 429 ()" and "k < M"
  shows "send_notification_with_backoff net t m M w =
           backoff_loop net t m M [k..<M] (min (2 * 2 ^ k) 64)
             (w\<lparr>posts_made := posts_made w + k, trace := trace w @ retry_events t m 2 k\<rparr>)"
  using backoff_loop_rate_limited[OF assms(1), of 0 M t m] assms(2)
  by (simp add: send_notification_with_backoff_def)

lemma deliver_success:
  assumes "\<forall>j<k. post_reply net (posts_made w + j) = Response 429 ()" and "k < M"
    and "accepted (post_reply net (posts_made w + k))"
  shows "send_notification_with_backoff net t m M w =
           (True, w\<lparr>posts_made := posts_made w + k + 1,
                    trace := trace w @ retry_events t m 2 k @
                             [Post t m (post_reply net (posts_made w + k))]\<rparr>)"
proof -
  let ?w = "w\<lparr>posts_made := posts_made w + k, trace := trace w @ retry_events t m 2 k\<rparr>"
  have "[k..<M] = k # [Suc k..<M]" using assms(2) by (simp add: upt_conv_Cons)
  moreover have "accepted (post_reply net (posts_made ?w))" using assms(3) by simp
  ultimately show ?thesis
    unfolding deliver_after_retries[OF assms(1,2)]
    by (simp only: backoff_loop_accepted) simp
qed

lemma deliver_hard_failure:
  assumes "\<forall>j<k. post_reply net (posts_made w + j) = Response 429 ()" and "k < M"
    and "hard_failure (post_reply net (posts_made w + k))"
  shows "send_notification_with_backoff net t m M w =
           (False, w\<lparr>posts_made := posts_made w + k + 1,
                    trace := trace w @ retry_events t m 2 k @
                             [Post t m (post_reply net (posts_made w + k))]\<rparr>)"
proof -
  let ?w = "w\<lparr>posts_made := posts_made w + k, trace := trace w @ retry_events t m 2 k\<rparr>"
  have "[k..<M] = k # [Suc k..<M]" using assms(2) by (simp add: upt_conv_Cons)
  moreover have "hard_failure (post_reply net (posts_made ?w))" using assms(3) by simp
  ultimately show ?thesis
    unfolding deliver_after_retries[OF assms(1,2)]
    by (simp only: backoff_loop_hard) simp
qed

lemma deliver_exhausted:
  assumes "\<forall>j<M. post_reply net (posts_made w + j) = Response 429 ()" and "0 < M"
  shows "send_notification_with_backoff net t m M w =
           (False, w\<lparr>posts_made := posts_made w + M,
                    trace := trace w @ retry_events t m 2 (M - 1) @
                             [Post t m (Response 429 ())]\<rparr>)"
proof -
  have a: "\<forall>j<M - 1. post_reply net (posts_made w + j) = Response 429 ()"
    using assms(1) by simp
  have b: "M - 1 < M" using assms(2) by simp
  have c: "[M - 1..<M] = [M - 1]" using assms(2) by (simp add: upt_conv_Cons)
  let ?w = "w\<lparr>posts_made := posts_made w + (M - 1), trace := trace w @ retry_events t m 2 (M - 1)\<rparr>"
  have "post_reply net (posts_made w + (M - 1)) = Response 429 ()"
    using assms(1) b by blast
  then have d: "post_reply net (posts_made ?w) = Response 429 ()"
    by simp
  have "backoff_loop net t m M [M - 1] (min (2 * 2 ^ (M - 1)) 64) ?w =
         (False, ?w\<lparr>posts_made := Suc (posts_made ?w),
                     trace := trace ?w @ [Post t m (Response 429 ())]\<rparr>)"
    by (simp only: backoff_loop_429[OF d]) simp
  then show ?thesis
    unfolding deliver_after_retries[OF a b] c using assms(2) by simp
qed

lemma backoff_loop_posts_bound:
  "posts_made (snd (backoff_loop net t m M attempts b w)) \<le> posts_made w + length attempts"
proof (induction attempts arbitrary: b w)
  case Nil
  then show ?case by simp
next
  case (Cons a attempts)
  have "posts_made (snd (backoff_loop net t m M attempts b' w')) \<le> posts_made w + Suc (length attempts)"
    if "posts_made w' = Suc (posts_made w)" for b' w'
    using Cons.IH[of b' w'] that by simp
  then show ?case
    by (simp add: send_notification_eq split: reply.splits option.splits error.splits)
qed

lemma deliver_posts_bound:
  "posts_made (snd (send_notification_with_backoff net t m M w)) \<le> posts_made w + M"
  using backoff_loop_posts_bound[of net t m M "[0..<M]" 2 w]
  by (simp add: send_notification_with_backoff_def)

lemma accepted_2xx: "200 \<le> code \<Longrightarrow> code < 300 \<Longrightarrow> accepted (Response code ())"
  by (simp add: accepted_def raise_for_status_def)

text \<open>
  C5. \<open>send_notification_with_backoff\<close> with \<open>max_retries = M\<close> (5 where the run
  controller calls it), from any world \<open>w\<close>. If the first \<open>k < M\<close> POSTs are answered 429
  and the next one is accepted (any 2xx status is), the result is \<open>True\<close> after
  \<open>k + 1\<close> POSTs; if the next one is a hard failure (no response, or an error status
  other than 429), the result is \<open>False\<close> at once, after \<open>k + 1\<close> POSTs, with no further
  attempt; if all \<open>M\<close> POSTs are answered 429 the result is \<open>False\<close> after \<open>M\<close> POSTs.
  Between two attempts the process sleeps; the sleeps after \<open>k\<close> rate-limited attempts
  are 2, 4, 8, ... seconds, doubling and capped at 64. No call makes more than \<open>M\<close> POSTs.
\<close>

theorem deliver_contract:
  "(k < M \<and> (\<forall>j<k. post_reply net (posts_made w + j) = Response 429 ()) \<and>
      accepted (post_reply net (posts_made w + k))
    \<longrightarrow> send_notification_with_backoff net t m M w =
          (True, w\<lparr>posts_made := posts_made w + k + 1,
                   trace := trace w @ retry_events t m 2 k @
                            [Post t m (post_reply net (posts_made w + k))]\<rparr>))
 \<and> (200 \<le> code \<and> code < 300 \<longrightarrow> accepted (Response code ()))
 \<and> (k < M \<and> (\<forall>j<k. post_reply net (posts_made w + j) = Response 429 ()) \<and>
      hard_failure (post_reply net (posts_made w + k))
    \<longrightarrow> send_notification_with_backoff net t m M w =
          (False, w\<lparr>posts_made := posts_made w + k + 1,
                    trace := trace w @ retry_events t m 2 k @
                             [Post t m (post_reply net (posts_made w + k))]\<rparr>))
 \<and> (0 < M \<and> (\<forall>j<M. post_reply net (posts_made w + j) = Response 429 ())
    \<longrightarrow> send_notification_with_backoff net t m M w =
          (False, w\<lparr>posts_made := posts_made w + M,
                    trace := trace w @ retry_events t m 2 (M - 1) @ [Post t m (Response 429 ())]\<rparr>))
 \<and> sleeps (retry_events t m 2 k) = map (\<lambda>j. min (2 * 2 ^ j) 64) [0..<k]
 \<and> posts_made (snd (send_notification_with_backoff net t m M w)) \<le> posts_made w + M"
proof (intro conjI impI)
  assume "k < M \<and> (\<forall>j<k. post_reply net (posts_made w + j) = Response 429 ()) \<and>
      accepted (post_reply net (posts_made w + k))"
  then show "send_notification_with_backoff net t m M w =
          (True, w\<lparr>posts_made := posts_made w + k + 1,
                   trace := trace w @ retry_events t m 2 k @
                            [Post t m (post_reply net (posts_made w + k))]\<rparr>)"
    using deliver_success[of k net w M t m] by simp
next
  assume "200 \<le> code \<and> code < 300"
  then show "accepted (Response code ())" by (simp add: accepted_2xx)
next
  assume "k < M \<and> (\<forall>j<k. post_reply net (posts_made w + j) = Response 429 ()) \<and>
      hard_failure (post_reply net (posts_made w + k))"
  then show "send_notification_with_backoff net t m M w =
          (False, w\<lparr>posts_made := posts_made w + k + 1,
                    trace := trace w @ retry_events t m 2 k @
                             [Post t m (post_reply net (posts_made w + k))]\<rparr>)"
    using deliver_hard_failure[of k net w M t m] by simp
next
  assume "0 < M \<and> (\<forall>j<M. post_reply net (posts_made w + j) = Response 429 ())"
  then show "send_notification_with_backoff net t m M w =
          (False, w\<lparr>posts_made := posts_made w + M,
                    trace := trace w @ retry_events t m 2 (M - 1) @ [Post t m (Response 429 ())]\<rparr>)"
    using deliver_exhausted[of M net w t m] by simp
next
  show "sleeps (retry_events t m 2 k) = map (\<lambda>j. min (2 * 2 ^ j) 64) [0..<k]"
    by (rule backoff_delays)
next
  show "posts_made (snd (send_notification_with_backoff net t m M w)) \<le> posts_made w + M"
    by (rule deliver_posts_bound)
qed

theorem deliver_contract_witness:
  "send_notification_with_backoff (net_of ''t'' [] limited_twice) ''T'' ''M'' 5 (start None) =
     (True, \<lparr>state_file = None, posts_made = 3,
             trace = [Post ''T'' ''M'' (Response 429 ()), Sleep 2,
                      Post ''T'' ''M'' (Response 429 ()), Sleep 4,
                      Post ''T'' ''M'' (Response 200 ())]\<rparr>)
 \<and> send_notification_with_backoff (net_of ''t'' [] server_error) ''T'' ''M'' 5 (start None) =
     (False, \<lparr>state_file = None, posts_made = 1, trace = [Post ''T'' ''M'' (Response 500 ())]\<rparr>)
 \<and> send_notification_with_backoff (net_of ''t'' [] always_limited) ''T'' ''M'' 5 (start None) =
     (False, \<lparr>state_file = None, posts_made = 5,
              trace = [Post ''T'' ''M'' (Response 429 ()), Sleep 2,
                       Post ''T'' ''M'' (Response 429 ()), Sleep 4,
                       Post ''T'' ''M'' (Response 429 ()), Sleep 8,
                       Post ''T'' ''M'' (Response 429 ()), Sleep 16,
                       Post ''T'' ''M'' (Response 429 ())]\<rparr>)
 \<and> sleeps (retry_events ''T'' ''M'' 2 7) = [2, 4, 8, 16, 32, 64, 64]"
proof -
  note a = deliver_contract[where k = 2 and M = 5 and net = "net_of ''t'' [] limited_twice"
      and w = "start None" and code = 200 and t = "''T''" and m = "''M''"]
  note b = deliver_contract[where k = 0 and M = 5 and net = "net_of ''t'' [] server_error"
      and w = "start None" and code = 200 and t = "''T''" and m = "''M''"]
  note c = deliver_contract[where k = 7 and M = 5 and net = "net_of ''t'' [] always_limited"
      and w = "start None" and code = 200 and t = "''T''" and m = "''M''"]
  have two: "(\<forall>j<2. P j) = (P 0 \<and> P (Suc 0))" for P :: "nat \<Rightarrow> bool"
    by (auto simp: less_Suc_eq numeral_2_eq_2)
  have upt7: "[0..<7] = [0, 1, 2, 3, 4, 5, 6]"
    by (simp add: upt_rec)
  show ?thesis
    using a b c
    by (simp add: net_of_def start_def limited_twice_def always_limited_def server_error_def
        hard_failure_def accepted_def raise_for_status_def two upt7 eval_nat_numeral)
qed

section \<open>The run controller: the paths of a run\<close>

lemma save_state_simps [simp]:
  "state_file (save_state st w) = Some st"
  "posts_made (save_state st w) = posts_made w"
  "trace (save_state st w) = trace w @ [Write_state st]"
  by (simp_all add: save_state_def)

lemma load_state_emit [simp]: "load_state (emit e w) = load_state w"
  by (simp add: load_state_def)

lemma load_state_start: "load_state (start (state_file w)) = load_state w"
  by (simp add: load_state_def start_def)

lemma get_rows_updated_at_eq:
  "get_rows_updated_at net w = (metadata_result net, emit Get_metadata w)"
  by (simp add: metadata_result_def get_rows_updated_at_def Let_def
      split: reply.splits option.splits)

lemma fetch_recent_calls_eq:
  "fetch_recent_calls net 200 w = (records_result net, emit (Get_records 200) w)"
  by (simp add: records_result_def fetch_recent_calls_def Let_def
      split: reply.splits option.splits)

lemma metadata_result_cases:
  "metadata_result net =
     (case metadata_reply net of
        No_response \<Rightarrow> Inl ConnectionError
      | Response code body \<Rightarrow>
          if 400 \<le> code \<and> code < 600 then Inl (HTTPError code)
          else (case body of None \<Rightarrow> Inl JSONDecodeError
                | Some obj \<Rightarrow> Inr (get obj ''rowsUpdatedAt'')))"
  by (auto simp add: metadata_result_def get_rows_updated_at_def Let_def raise_for_status_def
      split: reply.splits option.splits)

lemma records_result_cases:
  "records_result net =
     (case records_reply net of
        No_response \<Rightarrow> Inl ConnectionError
      | Response code body \<Rightarrow>
          if 400 \<le> code \<and> code < 600 then Inl (HTTPError code)
          else (case body of None \<Rightarrow> Inl JSONDecodeError | Some calls \<Rightarrow> Inr calls))"
  by (auto simp add: records_result_def fetch_recent_calls_def Let_def raise_for_status_def
      split: reply.splits option.splits)

text \<open>The four ways through \<open>check_and_notify\<close>.\<close>

lemma run_metadata_fails:
  "metadata_result net = Inl e \<Longrightarrow> check_and_notify fromisoformat net w = (Inl e, emit Get_metadata w)"
  by (simp add: check_and_notify_def get_rows_updated_at_eq Let_def)

lemma run_skips:
  "metadata_result net = Inr tok \<Longrightarrow> tok = rows_updated_at (load_state w) \<Longrightarrow>
   seen_ids (load_state w) \<noteq> [] \<Longrightarrow>
   check_and_notify fromisoformat net w = (Inr (), emit Get_metadata w)"
  by (simp add: check_and_notify_def get_rows_updated_at_eq Let_def)

lemma run_fetch_fails:
  "metadata_result net = Inr tok \<Longrightarrow>
   \<not> (tok = rows_updated_at (load_state w) \<and> seen_ids (load_state w) \<noteq> []) \<Longrightarrow>
   records_result net = Inl e \<Longrightarrow>
   check_and_notify fromisoformat net w = (Inl e, emit (Get_records 200) (emit Get_metadata w))"
  by (simp add: check_and_notify_def get_rows_updated_at_eq fetch_recent_calls_eq Let_def)

lemma run_completes:
  assumes "metadata_result net = Inr tok"
    and "\<not> (tok = rows_updated_at (load_state w) \<and> seen_ids (load_state w) \<noteq> [])"
    and "records_result net = Inr calls"
    and "notify_loop fromisoformat net (length (find_new_calls (seen_ids (load_state w)) calls))
           (enumerate 0 (find_new_calls (seen_ids (load_state w)) calls)) []
           (emit (Get_records 200) (emit Get_metadata w)) = (sent, w3)"
  shows "check_and_notify fromisoformat net w =
           (Inr (), save_state \<lparr>seen_ids = list_of_seen (seen_ids (load_state w)) @ sent,
                                rows_updated_at = tok\<rparr> w3)"
proof -
  let ?new = "find_new_calls (seen_ids (load_state w)) calls"
  let ?w2 = "emit (Get_records 200) (emit Get_metadata w)"
  have loop: "(if ?new \<noteq> [] then notify_loop fromisoformat net (length ?new) (enumerate 0 ?new) [] ?w2
               else ([], ?w2)) = (sent, w3)"
    using assms(4) by (cases "?new = []") simp_all
  have "check_and_notify fromisoformat net w =
          (let (sent_call_ids, w3) =
                 (if ?new \<noteq> [] then notify_loop fromisoformat net (length ?new) (enumerate 0 ?new) [] ?w2
                  else ([], ?w2))
           in (Inr (), save_state \<lparr>seen_ids = list_of_seen (seen_ids (load_state w)) @ sent_call_ids,
                                    rows_updated_at = tok\<rparr> w3))"
    unfolding check_and_notify_def get_rows_updated_at_eq fetch_recent_calls_eq
    using assms(1-3) by (auto simp add: Let_def)
  then show ?thesis
    unfolding loop by simp
qed

text \<open>
  C8. When the metadata query fails, or the run is not skipped and the fetch fails
  (no response, or any 4xx or 5xx status, 429 included), \<open>main\<close> exits with code 1
  having printed the error; the world it leaves differs from the one it found only by
  the trace of the requests made and of the print, so the state file is not written.
  A run that completes exits with code 0.
\<close>

theorem failed_get_aborts_run:
  "(metadata_result net = Inl e \<longrightarrow>
      main fromisoformat net w = (1, w\<lparr>trace := trace w @ [Get_metadata, Print_error e]\<rparr>))
 \<and> (metadata_result net = Inr tok \<and>
     \<not> (tok = rows_updated_at (load_state w) \<and> seen_ids (load_state w) \<noteq> []) \<and>
     records_result net = Inl e \<longrightarrow>
      main fromisoformat net w = (1, w\<lparr>trace := trace w @ [Get_metadata, Get_records 200, Print_error e]\<rparr>))
 \<and> (metadata_reply net = No_response \<longrightarrow> metadata_result net = Inl ConnectionError)
 \<and> (metadata_reply net = Response code body \<and> 400 \<le> code \<and> code < 600 \<longrightarrow>
      metadata_result net = Inl (HTTPError code))
 \<and> (records_reply net = No_response \<longrightarrow> records_result net = Inl ConnectionError)
 \<and> (records_reply net = Response code body' \<and> 400 \<le> code \<and> code < 600 \<longrightarrow>
      records_result net = Inl (HTTPError code))
 \<and> fst (main fromisoformat net w) = (case fst (check_and_notify fromisoformat net w) of Inl e' \<Rightarrow> 1 | Inr u \<Rightarrow> 0)"
proof (intro conjI impI)
  assume "metadata_result net = Inl e"
  then show "main fromisoformat net w = (1, w\<lparr>trace := trace w @ [Get_metadata, Print_error e]\<rparr>)"
    by (simp add: main_def run_metadata_fails emit_def)
next
  assume "metadata_result net = Inr tok \<and>
     \<not> (tok = rows_updated_at (load_state w) \<and> seen_ids (load_state w) \<noteq> []) \<and>
     records_result net = Inl e"
  then have "check_and_notify fromisoformat net w = (Inl e, emit (Get_records 200) (emit Get_metadata w))"
    using run_fetch_fails[of net tok w e] by blast
  then show "main fromisoformat net w =
      (1, w\<lparr>trace := trace w @ [Get_metadata, Get_records 200, Print_error e]\<rparr>)"
    by (simp add: main_def emit_def)
next
  assume "metadata_reply net = No_response"
  then show "metadata_result net = Inl ConnectionError"
    by (simp add: metadata_result_cases)
next
  assume "metadata_reply net = Response code body \<and> 400 \<le> code \<and> code < 600"
  then show "metadata_result net = Inl (HTTPError code)"
    by (simp add: metadata_result_cases)
next
  assume "records_reply net = No_response"
  then show "records_result net = Inl ConnectionError"
    by (simp add: records_result_cases)
next
  assume "records_reply net = Response code body' \<and> 400 \<le> code \<and> code < 600"
  then show "records_result net = Inl (HTTPError code)"
    by (simp add: records_result_cases)
next
  show "fst (main fromisoformat net w) = (case fst (check_and_notify fromisoformat net w) of Inl e' \<Rightarrow> 1 | Inr u \<Rightarrow> 0)"
    by (simp add: main_def split: prod.splits sum.splits)
qed

theorem failed_get_aborts_run_witness:
  "main example_timestamps ((net_of ''t1'' [] always_ok)\<lparr>metadata_reply := No_response\<rparr>) (start (Some seen_x)) =
     (1, \<lparr>state_file = Some seen_x, posts_made = 0,
          trace = [Get_metadata, Print_error ConnectionError]\<rparr>)
 \<and> main example_timestamps ((net_of ''t1'' [] always_ok)\<lparr>records_reply := Response 503 None\<rparr>) (start (Some seen_x)) =
     (1, \<lparr>state_file = Some seen_x, posts_made = 0,
          trace = [Get_metadata, Get_records 200, Print_error (HTTPError 503)]\<rparr>)
 \<and> fst (main example_timestamps (net_of ''t0'' [] always_ok) (start (Some seen_x))) = 0"
proof -
  let ?n1 = "(net_of ''t1'' [] always_ok)\<lparr>metadata_reply := No_response\<rparr>"
  let ?n2 = "(net_of ''t1'' [] always_ok)\<lparr>records_reply := Response 503 None\<rparr>"
  let ?n3 = "net_of ''t0'' [] always_ok"
  let ?w = "start (Some seen_x)"
  have m1: "metadata_reply ?n1 = No_response"
    by (simp add: net_of_def)
  have m2: "metadata_result ?n2 = Inr (JStr ''t1'')"
    by (simp add: metadata_result_cases net_of_def get_def get_default_def)
  have r2: "records_reply ?n2 = Response 503 None \<and> (400::nat) \<le> 503 \<and> (503::nat) < 600"
    by (simp add: net_of_def)
  have m3: "metadata_result ?n3 = Inr (JStr ''t0'')"
    by (simp add: metadata_result_cases net_of_def get_def get_default_def)
  have s: "load_state ?w = seen_x"
    by (simp add: load_state_def start_def)
  have r3: "check_and_notify example_timestamps ?n3 ?w = (Inr (), emit Get_metadata ?w)"
    by (rule run_skips[OF m3]) (simp_all add: s, simp_all add: seen_x_def)
  note a = failed_get_aborts_run[where net = ?n1 and w = ?w and e = ConnectionError]
  note b = failed_get_aborts_run[where net = ?n2 and w = ?w and e = "HTTPError 503"
      and tok = "JStr ''t1''" and code = 503 and body' = None]
  note c = failed_get_aborts_run[where net = ?n3 and w = ?w]
  have A: "main example_timestamps ?n1 ?w = (1, ?w\<lparr>trace := trace ?w @ [Get_metadata, Print_error ConnectionError]\<rparr>)"
    using a m1 by blast
  have "records_result ?n2 = Inl (HTTPError 503)"
    using b r2 by blast
  moreover have "\<not> (JStr ''t1'' = rows_updated_at (load_state ?w) \<and> seen_ids (load_state ?w) \<noteq> [])"
    unfolding s by (simp add: seen_x_def)
  ultimately have B: "main example_timestamps ?n2 ?w =
      (1, ?w\<lparr>trace := trace ?w @ [Get_metadata, Get_records 200, Print_error (HTTPError 503)]\<rparr>)"
    using b m2 by blast
  have C: "fst (main example_timestamps ?n3 ?w) = 0"
    using c r3 by simp
  show ?thesis
    unfolding A B C by (simp add: start_def)
qed

section \<open>The run controller: what a run adds to the seen-set\<close>

lemma delivered_append: "delivered (xs @ ys) = delivered xs @ delivered ys"
  by (induction xs rule: delivered.induct) simp_all

lemma reply_cases: "accepted r \<or> hard_failure r \<or> r = Response 429 ()"
  by (cases r) (auto simp: accepted_def hard_failure_def raise_for_status_def)

lemma backoff_loop_effect:
  "backoff_loop net t m M attempts b w = (ok, w') \<Longrightarrow>
   state_file w' = state_file w \<and>
   (\<exists>tr. trace w' = trace w @ tr \<and> (ok \<longrightarrow> (t, m) \<in> set (delivered tr)))"
proof (induction attempts arbitrary: b w)
  case Nil
  then show ?case by simp
next
  case (Cons a attempts)
  let ?r = "post_reply net (posts_made w)"
  let ?w1 = "w\<lparr>posts_made := Suc (posts_made w), trace := trace w @ [Post t m ?r]\<rparr>"
  consider (acc) "accepted ?r" | (hard) "hard_failure ?r" | (limited) "?r = Response 429 ()"
    using reply_cases by blast
  then show ?case
  proof cases
    case acc
    then have "ok" "w' = ?w1"
      using Cons.prems unfolding backoff_loop_accepted[OF acc] by auto
    with acc show ?thesis by simp
  next
    case hard
    then have "\<not> ok" "w' = ?w1"
      using Cons.prems unfolding backoff_loop_hard[OF hard] by auto
    then show ?thesis by simp
  next
    case limited
    show ?thesis
    proof (cases "int a < int M - 1")
      case True
      let ?w2 = "w\<lparr>posts_made := Suc (posts_made w),
                   trace := trace w @ [Post t m (Response 429 ()), Sleep b]\<rparr>"
      have "backoff_loop net t m M attempts (min (b * 2) max_backoff) ?w2 = (ok, w')"
        using Cons.prems True unfolding backoff_loop_429[OF limited] by simp
      from Cons.IH[OF this] obtain tr where
        "state_file w' = state_file ?w2" "trace w' = trace ?w2 @ tr"
        "ok \<longrightarrow> (t, m) \<in> set (delivered tr)"
        by blast
      then have "state_file w' = state_file w"
        "trace w' = trace w @ ([Post t m (Response 429 ()), Sleep b] @ tr)"
        "ok \<longrightarrow> (t, m) \<in> set (delivered ([Post t m (Response 429 ()), Sleep b] @ tr))"
        by (simp_all add: accepted_def)
      then show ?thesis by blast
    next
      case False
      then have "\<not> ok" "w' = w\<lparr>posts_made := Suc (posts_made w),
                                  trace := trace w @ [Post t m (Response 429 ())]\<rparr>"
        using Cons.prems unfolding backoff_loop_429[OF limited] by auto
      then show ?thesis by simp
    qed
  qed
qed

lemma deliver_effect:
  "send_notification_with_backoff net t m M w = (ok, w') \<Longrightarrow>
   state_file w' = state_file w \<and>
   (\<exists>tr. trace w' = trace w @ tr \<and> (ok \<longrightarrow> (t, m) \<in> set (delivered tr)))"
  unfolding send_notification_with_backoff_def by (rule backoff_loop_effect)

lemma notify_loop_effect:
  "notify_loop fromisoformat net n ics sent w = (sent', w') \<Longrightarrow>
   state_file w' = state_file w \<and>
   (\<exists>tr extra. trace w' = trace w @ tr \<and> sent' = sent @ extra \<and>
      (\<forall>i\<in>set extra. truthy i \<and>
         (\<exists>c\<in>snd ` set ics. call_identity c = i \<and>
            (call_title c, format_call fromisoformat c) \<in> set (delivered tr))))"
proof (induction ics arbitrary: sent w)
  case Nil
  then show ?case by simp
next
  case (Cons ic ics)
  obtain i c where ic: "ic = (i, c)" by (cases ic)
  obtain ok w1 where
    d: "send_notification_with_backoff net (call_title c) (format_call fromisoformat c) 5 w = (ok, w1)"
    by (cases "send_notification_with_backoff net (call_title c) (format_call fromisoformat c) 5 w")
  from deliver_effect[OF d] obtain tr1 where
    sf1: "state_file w1 = state_file w" and tr1: "trace w1 = trace w @ tr1" and
    del1: "ok \<longrightarrow> (call_title c, format_call fromisoformat c) \<in> set (delivered tr1)"
    by blast
  show ?case
  proof (cases ok)
    case False
    with Cons.prems ic d have "sent' = sent @ []" "w' = w1" by simp_all
    with sf1 tr1 show ?thesis by force
  next
    case True
    define extra1 where "extra1 = (if truthy (call_identity c) then [call_identity c] else [])"
    define pause where "pause = (if int i < int n - 1 then [Sleep 1] else [])"
    define w2 where "w2 = (if int i < int n - 1 then sleep 1 w1 else w1)"
    have rec: "notify_loop fromisoformat net n ics (sent @ extra1) w2 = (sent', w')"
      using Cons.prems ic d True
      by (auto simp add: extra1_def w2_def Let_def split: if_splits)
    have w2: "state_file w2 = state_file w" "trace w2 = trace w @ tr1 @ pause"
      by (simp_all add: w2_def pause_def sf1 tr1)
    from Cons.IH[OF rec] obtain tr2 extra2 where
      sf: "state_file w' = state_file w2" and tr2: "trace w' = trace w2 @ tr2" and
      ex2: "sent' = (sent @ extra1) @ extra2" and
      del2: "\<forall>i\<in>set extra2. truthy i \<and>
         (\<exists>c\<in>snd ` set ics. call_identity c = i \<and>
            (call_title c, format_call fromisoformat c) \<in> set (delivered tr2))"
      by blast
    let ?tr = "tr1 @ pause @ tr2"
    have a: "trace w' = trace w @ ?tr" using tr2 w2 by simp
    have b: "sent' = sent @ (extra1 @ extra2)" using ex2 by simp
    have c1: "(call_title c, format_call fromisoformat c) \<in> set (delivered ?tr)"
      using del1 True by (simp add: delivered_append)
    have c: "\<forall>i\<in>set (extra1 @ extra2). truthy i \<and>
         (\<exists>c\<in>snd ` set (ic # ics). call_identity c = i \<and>
            (call_title c, format_call fromisoformat c) \<in> set (delivered ?tr))"
    proof
      fix j assume "j \<in> set (extra1 @ extra2)"
      then consider "j \<in> set extra1" | "j \<in> set extra2" by auto
      then show "truthy j \<and> (\<exists>c\<in>snd ` set (ic # ics). call_identity c = j \<and>
            (call_title c, format_call fromisoformat c) \<in> set (delivered ?tr))"
      proof cases
        case 1
        then have "j = call_identity c" "truthy j"
          by (auto simp: extra1_def split: if_splits)
        with c1 ic show ?thesis by auto
      next
        case 2
        with del2 obtain c' where "truthy j" "c' \<in> snd ` set ics" "call_identity c' = j"
          "(call_title c', format_call fromisoformat c') \<in> set (delivered tr2)"
          by blast
        then show ?thesis by (auto simp: delivered_append)
      qed
    qed
    have "\<exists>tr extra. trace w' = trace w @ tr \<and> sent' = sent @ extra \<and>
      (\<forall>i\<in>set extra. truthy i \<and>
         (\<exists>c\<in>snd ` set (ic # ics). call_identity c = i \<and>
            (call_title c, format_call fromisoformat c) \<in> set (delivered tr)))"
      by (rule exI[of _ ?tr], rule exI[of _ "extra1 @ extra2"]) (intro conjI a b c)
    moreover have "state_file w' = state_file w"
      using sf w2(1) by simp
    ultimately show ?thesis by (rule conjI[rotated])
  qed
qed

lemma load_state_save [simp]: "load_state (save_state st w) = st"
  by (simp add: load_state_def save_state_def emit_def)

lemma load_state_cong: "state_file w' = state_file w \<Longrightarrow> load_state w' = load_state w"
  by (simp add: load_state_def)

lemma find_new_calls_subset: "set (find_new_calls seen calls) \<subseteq> set calls"
  by (auto simp: find_new_calls_def)

lemma snd_set_enumerate: "snd ` set (enumerate k xs) = set xs"
  using map_snd_enumerate[of k xs] by (metis set_map)

text \<open>
  Every run either leaves the state file as it found it, or writes the old seen-set
  followed by identities that are truthy and belong to new calls whose notification
  was accepted in this run, together with the token just read.
\<close>

lemma run_effect:
  assumes "check_and_notify fromisoformat net w = (r, w')"
  shows "(state_file w' = state_file w \<and>
          (r = Inr () \<longrightarrow> metadata_result net = Inr (rows_updated_at (load_state w)) \<and>
                           seen_ids (load_state w) \<noteq> []))
       \<or> (\<exists>tok calls sent tr.
            metadata_result net = Inr tok \<and> records_result net = Inr calls \<and> r = Inr () \<and>
            load_state w' = \<lparr>seen_ids = list_of_seen (seen_ids (load_state w)) @ sent,
                             rows_updated_at = tok\<rparr> \<and>
            trace w' = trace w @ tr \<and>
            (\<forall>i\<in>set sent. truthy i \<and>
               (\<exists>c\<in>set (find_new_calls (seen_ids (load_state w)) calls).
                  call_identity c = i \<and> (call_title c, format_call fromisoformat c) \<in> set (delivered tr))))"
proof (cases "metadata_result net")
  case (Inl e)
  from run_metadata_fails[OF this, where w = w and fromisoformat = fromisoformat] assms show ?thesis by auto
next
  case (Inr tok)
  show ?thesis
  proof (cases "tok = rows_updated_at (load_state w) \<and> seen_ids (load_state w) \<noteq> []")
    case True
    then have "check_and_notify fromisoformat net w = (Inr (), emit Get_metadata w)"
      using run_skips[OF Inr, of w] by simp
    with assms True Inr show ?thesis by auto
  next
    case False
    show ?thesis
    proof (cases "records_result net")
      case (Inl e)
      from run_fetch_fails[OF Inr False this] assms show ?thesis by auto
    next
      case (Inr calls)
      let ?new = "find_new_calls (seen_ids (load_state w)) calls"
      let ?w2 = "emit (Get_records 200) (emit Get_metadata w)"
      obtain sent w3 where
        loop: "notify_loop fromisoformat net (length ?new) (enumerate 0 ?new) [] ?w2 = (sent, w3)"
        by (cases "notify_loop fromisoformat net (length ?new) (enumerate 0 ?new) [] ?w2")
      from notify_loop_effect[OF loop] obtain tr where
        tr: "trace w3 = trace ?w2 @ tr" and
        del: "\<forall>i\<in>set sent. truthy i \<and>
           (\<exists>c\<in>snd ` set (enumerate 0 ?new). call_identity c = i \<and>
              (call_title c, format_call fromisoformat c) \<in> set (delivered tr))"
        by auto
      let ?st = "\<lparr>seen_ids = list_of_seen (seen_ids (load_state w)) @ sent, rows_updated_at = tok\<rparr>"
      let ?tr = "[Get_metadata, Get_records 200] @ tr @ [Write_state ?st]"
      have run: "check_and_notify fromisoformat net w = (Inr (), save_state ?st w3)"
        by (rule run_completes[OF \<open>metadata_result net = Inr tok\<close> False Inr loop])
      with assms have r: "r = Inr ()" and w': "w' = save_state ?st w3" by simp_all
      have a: "load_state w' = ?st" by (simp add: w')
      have b: "trace w' = trace w @ ?tr" by (simp add: w' tr)
      have c: "\<forall>i\<in>set sent. truthy i \<and>
               (\<exists>c\<in>set ?new. call_identity c = i \<and>
                  (call_title c, format_call fromisoformat c) \<in> set (delivered ?tr))"
        using del unfolding snd_set_enumerate by (auto simp: delivered_append)
      show ?thesis
        using \<open>metadata_result net = Inr tok\<close> Inr r a b c by blast
    qed
  qed
qed

section \<open>The run controller: skipping an unchanged dataset\<close>

lemma list_of_seen_nonempty: "seen \<noteq> [] \<Longrightarrow> list_of_seen seen \<noteq> []"
  by (simp add: list_of_seen_def)

lemma set_list_of_seen [simp]: "set (list_of_seen seen) = set seen"
  by (simp add: list_of_seen_def)

lemma rerun_skips:
  assumes "seen_ids (load_state w) \<noteq> []" and "check_and_notify fromisoformat net w = (Inr (), w')"
    and "metadata_result net' = metadata_result net"
  shows "check_and_notify fromisoformat net' (start (state_file w')) =
           (Inr (), emit Get_metadata (start (state_file w')))"
proof -
  let ?w2 = "start (state_file w')"
  have "metadata_result net = Inr (rows_updated_at (load_state w')) \<and> seen_ids (load_state w') \<noteq> []"
    using run_effect[OF assms(2)]
  proof (elim disjE exE conjE)
    assume "state_file w' = state_file w"
      "Inr () = Inr () \<longrightarrow> metadata_result net = Inr (rows_updated_at (load_state w)) \<and>
         seen_ids (load_state w) \<noteq> []"
    then show ?thesis using load_state_cong[of w' w] by simp
  next
    fix tok calls sent tr
    assume "metadata_result net = Inr tok"
      "load_state w' = \<lparr>seen_ids = list_of_seen (seen_ids (load_state w)) @ sent,
                         rows_updated_at = tok\<rparr>"
    then show ?thesis using list_of_seen_nonempty[OF assms(1)] by simp
  qed
  then have "metadata_result net' = Inr (rows_updated_at (load_state ?w2))"
    "seen_ids (load_state ?w2) \<noteq> []"
    using assms(3) by (simp_all add: load_state_start)
  then show ?thesis by (rule run_skips[OF _ refl])
qed

text \<open>
  C3. When the token read equals the persisted token and the persisted seen-set is not
  empty, the run returns after the metadata query alone: no fetch, no POST, no write,
  the state file untouched. Hence, after any completed run that started from a
  non-empty seen-set, a second process that reads the same token does the metadata
  query and nothing else.
\<close>

theorem unchanged_dataset_skips:
  "(metadata_result net = Inr (rows_updated_at (load_state w)) \<and> seen_ids (load_state w) \<noteq> []
      \<longrightarrow> check_and_notify fromisoformat net w = (Inr (), w\<lparr>trace := trace w @ [Get_metadata]\<rparr>))
 \<and> (seen_ids (load_state w) \<noteq> [] \<and> check_and_notify fromisoformat net w = (Inr (), w') \<and>
     metadata_result net' = metadata_result net
      \<longrightarrow> check_and_notify fromisoformat net' (start (state_file w')) =
            (Inr (), \<lparr>state_file = state_file w', posts_made = 0, trace = [Get_metadata]\<rparr>))"
proof (intro conjI impI)
  assume "metadata_result net = Inr (rows_updated_at (load_state w)) \<and> seen_ids (load_state w) \<noteq> []"
  then show "check_and_notify fromisoformat net w = (Inr (), w\<lparr>trace := trace w @ [Get_metadata]\<rparr>)"
    using run_skips[of net "rows_updated_at (load_state w)" w] by (simp add: emit_def)
next
  assume "seen_ids (load_state w) \<noteq> [] \<and> check_and_notify fromisoformat net w = (Inr (), w') \<and>
     metadata_result net' = metadata_result net"
  then show "check_and_notify fromisoformat net' (start (state_file w')) =
            (Inr (), \<lparr>state_file = state_file w', posts_made = 0, trace = [Get_metadata]\<rparr>)"
    using rerun_skips[where w = w and net = net and w' = w' and net' = net'
        and fromisoformat = fromisoformat] by (simp add: emit_def start_def)
qed

lemma net_a_metadata: "metadata_result (net_a token) = Inr (JStr token)"
  by (simp add: net_a_def metadata_result_cases net_of_def get_def get_default_def)

lemma run_net_a:
  "check_and_notify fromisoformat (net_a ''t1'') (start (Some seen_x)) =
     (Inr (), \<lparr>state_file = Some seen_xa, posts_made = 1,
               trace = [Get_metadata, Get_records 200,
                        Post ''SF Dispatch - Unknown'' empty_body (Response 200 ()),
                        Write_state seen_xa]\<rparr>)"
  by code_simp

theorem unchanged_dataset_skips_witness:
  "check_and_notify example_timestamps (net_a ''t0'') (start (Some seen_x)) =
     (Inr (), \<lparr>state_file = Some seen_x, posts_made = 0, trace = [Get_metadata]\<rparr>)
 \<and> check_and_notify example_timestamps (net_a ''t1'') (start (Some seen_xa)) =
     (Inr (), \<lparr>state_file = Some seen_xa, posts_made = 0, trace = [Get_metadata]\<rparr>)"
proof -
  let ?w = "start (Some seen_x)"
  let ?w' = "\<lparr>state_file = Some seen_xa, posts_made = 1,
               trace = [Get_metadata, Get_records 200,
                        Post ''SF Dispatch - Unknown'' empty_body (Response 200 ()),
                        Write_state seen_xa]\<rparr>"
  have s: "load_state ?w = seen_x" by (simp add: load_state_def start_def)
  note a = unchanged_dataset_skips[where net = "net_a ''t0''" and w = ?w]
  note b = unchanged_dataset_skips[where net = "net_a ''t1''" and w = ?w and w' = ?w'
      and net' = "net_a ''t1''"]
  have s0: "metadata_result (net_a ''t0'') = Inr (rows_updated_at (load_state ?w))"
    "seen_ids (load_state ?w) \<noteq> []"
    unfolding s by (simp_all add: net_a_metadata seen_x_def)
  have A: "check_and_notify example_timestamps (net_a ''t0'') ?w = (Inr (), ?w\<lparr>trace := trace ?w @ [Get_metadata]\<rparr>)"
    using a s0 by blast
  have B: "check_and_notify example_timestamps (net_a ''t1'') (start (state_file ?w')) =
            (Inr (), \<lparr>state_file = state_file ?w', posts_made = 0, trace = [Get_metadata]\<rparr>)"
    using b run_net_a[where fromisoformat = example_timestamps] s0(2) by blast
  show ?thesis
    using A B by (simp add: start_def)
qed

section \<open>The run controller: the seen-set only grows, by delivered calls\<close>

text \<open>
  C9. Whatever a run does (it fails, it is skipped, it is a first run, it delivers all,
  some or none of its notifications), the persisted seen-set after it contains the
  persisted seen-set before it, and every identifier it gained is the identity of a
  fetched call whose notification (its title and body) was accepted in this run.
\<close>

theorem seen_set_grows_by_delivered:
  assumes "check_and_notify fromisoformat net (start file) = (r, w')"
  shows "set (seen_ids (load_state (start file))) \<subseteq> set (seen_ids (load_state w'))
       \<and> (\<forall>i\<in>set (seen_ids (load_state w')) - set (seen_ids (load_state (start file))).
            \<exists>calls c. records_result net = Inr calls \<and> c \<in> set calls \<and> call_identity c = i \<and>
                       (call_title c, format_call fromisoformat c) \<in> set (delivered (trace w')))"
  using run_effect[OF assms]
proof (elim disjE exE conjE)
  assume "state_file w' = state_file (start file)"
  then have "load_state w' = load_state (start file)" by (rule load_state_cong)
  then show ?thesis by simp
next
  fix tok calls sent tr
  assume rec: "records_result net = Inr calls"
    and st: "load_state w' = \<lparr>seen_ids = list_of_seen (seen_ids (load_state (start file))) @ sent,
                              rows_updated_at = tok\<rparr>"
    and tr: "trace w' = trace (start file) @ tr"
    and del: "\<forall>i\<in>set sent. truthy i \<and>
               (\<exists>c\<in>set (find_new_calls (seen_ids (load_state (start file))) calls).
                  call_identity c = i \<and> (call_title c, format_call fromisoformat c) \<in> set (delivered tr))"
  have "trace w' = tr" using tr by (simp add: start_def)
  with del rec find_new_calls_subset[of "seen_ids (load_state (start file))" calls]
  have "\<forall>i\<in>set sent. \<exists>calls c. records_result net = Inr calls \<and> c \<in> set calls \<and>
          call_identity c = i \<and> (call_title c, format_call fromisoformat c) \<in> set (delivered (trace w'))"
    by blast
  then show ?thesis by (simp add: st) blast
qed

theorem seen_set_grows_by_delivered_witness:
  "set (seen_ids seen_x) \<subseteq> set (seen_ids seen_xa)
 \<and> set (seen_ids seen_xa) - set (seen_ids seen_x) = {JStr ''A''}
 \<and> (''SF Dispatch - Unknown'', empty_body) \<in>
     set (delivered [Get_metadata, Get_records 200,
                     Post ''SF Dispatch - Unknown'' empty_body (Response 200 ()),
                     Write_state seen_xa])"
proof -
  have "load_state (start (Some seen_x)) = seen_x" by (simp add: load_state_def start_def)
  then show ?thesis
    using seen_set_grows_by_delivered[OF run_net_a[where fromisoformat = example_timestamps]]
    by (simp add: load_state_def seen_x_def seen_xa_def accepted_def raise_for_status_def)
qed

section \<open>The run controller: a delivery that fails partway\<close>

text \<open>
  C4. A run that is not skipped finds exactly three new calls \<open>c1\<close>, \<open>c2\<close>, \<open>c3\<close> with
  truthy, pairwise different identities. The notifier returns \<open>True\<close> for \<open>c1\<close> and
  \<open>False\<close> for \<open>c2\<close> (whatever made it fail). Then the run ends with the write of the
  state right after the failed delivery: nothing is POSTed for \<open>c3\<close>, the seen-set
  gains the identity of \<open>c1\<close> and nothing else, and the identities of \<open>c2\<close> and \<open>c3\<close> are
  not in it.
\<close>

theorem partial_failure_stops:
  assumes "metadata_result net = Inr tok" and "records_result net = Inr calls"
    and "seen_ids (load_state w) \<noteq> []" and "tok \<noteq> rows_updated_at (load_state w)"
    and "find_new_calls (seen_ids (load_state w)) calls = [c1, c2, c3]"
    and "truthy (call_identity c1)" and "truthy (call_identity c2)" and "truthy (call_identity c3)"
    and "distinct [call_identity c1, call_identity c2, call_identity c3]"
    and "send_notification_with_backoff net (call_title c1) (format_call fromisoformat c1) 5
           (emit (Get_records 200) (emit Get_metadata w)) = (True, w1)"
    and "send_notification_with_backoff net (call_title c2) (format_call fromisoformat c2) 5 (sleep 1 w1) =
           (False, w2)"
  shows "check_and_notify fromisoformat net w =
           (Inr (), w2\<lparr>state_file :=
                          Some \<lparr>seen_ids = list_of_seen (seen_ids (load_state w)) @ [call_identity c1],
                                rows_updated_at = tok\<rparr>,
                        trace := trace w2 @
                          [Write_state \<lparr>seen_ids = list_of_seen (seen_ids (load_state w)) @
                                                   [call_identity c1],
                                        rows_updated_at = tok\<rparr>]\<rparr>)
       \<and> set (seen_ids (load_state (snd (check_and_notify fromisoformat net w)))) - set (seen_ids (load_state w)) =
           {call_identity c1}
       \<and> call_identity c2 \<notin> set (seen_ids (load_state (snd (check_and_notify fromisoformat net w))))
       \<and> call_identity c3 \<notin> set (seen_ids (load_state (snd (check_and_notify fromisoformat net w))))"
proof -
  let ?seen = "seen_ids (load_state w)"
  let ?st = "\<lparr>seen_ids = list_of_seen ?seen @ [call_identity c1], rows_updated_at = tok\<rparr>"
  have loop: "notify_loop fromisoformat net (length (find_new_calls ?seen calls))
                (enumerate 0 (find_new_calls ?seen calls)) []
                (emit (Get_records 200) (emit Get_metadata w)) = ([call_identity c1], w2)"
    unfolding assms(5) using assms(6,10,11) by simp
  have run: "check_and_notify fromisoformat net w = (Inr (), save_state ?st w2)"
    by (rule run_completes[OF assms(1) _ assms(2) loop]) (use assms(4) in simp)
  have "set (find_new_calls ?seen calls) = {c \<in> set calls. call_identity c \<notin> set ?seen}"
    using assms(3) by (simp add: find_new_calls_def)
  then have new: "set [c1, c2, c3] = {c \<in> set calls. call_identity c \<notin> set ?seen}"
    unfolding assms(5) .
  then have notin: "call_identity c1 \<notin> set ?seen" "call_identity c2 \<notin> set ?seen"
    "call_identity c3 \<notin> set ?seen"
    by auto
  have after: "seen_ids (load_state (snd (check_and_notify fromisoformat net w))) =
                 list_of_seen ?seen @ [call_identity c1]"
    unfolding run by simp
  have world: "save_state ?st w2 = w2\<lparr>state_file := Some ?st, trace := trace w2 @ [Write_state ?st]\<rparr>"
    by (simp add: save_state_def emit_def)
  show ?thesis
    unfolding after using notin assms(9) run world by auto
qed

lemma run_net_abc:
  "check_and_notify fromisoformat net_abc (start (Some seen_x)) =
     (Inr (), \<lparr>state_file = Some seen_xa, posts_made = 2,
               trace = [Get_metadata, Get_records 200,
                        Post ''SF Dispatch - Unknown'' empty_body (Response 200 ()), Sleep 1,
                        Post ''SF Dispatch - Unknown'' empty_body (Response 500 ()),
                        Write_state seen_xa]\<rparr>)"
  by code_simp

theorem partial_failure_stops_witness:
  "check_and_notify example_timestamps net_abc (start (Some seen_x)) =
     (Inr (), \<lparr>state_file = Some seen_xa, posts_made = 2,
               trace = [Get_metadata, Get_records 200,
                        Post ''SF Dispatch - Unknown'' empty_body (Response 200 ()), Sleep 1,
                        Post ''SF Dispatch - Unknown'' empty_body (Response 500 ()),
                        Write_state seen_xa]\<rparr>)
 \<and> set (seen_ids seen_xa) - set (seen_ids seen_x) = {JStr ''A''}
 \<and> JStr ''B'' \<notin> set (seen_ids seen_xa) \<and> JStr ''C'' \<notin> set (seen_ids seen_xa)"
proof -
  let ?w = "start (Some seen_x)"
  let ?w1 = "\<lparr>state_file = Some seen_x, posts_made = 1,
               trace = [Get_metadata, Get_records 200,
                        Post ''SF Dispatch - Unknown'' empty_body (Response 200 ())]\<rparr>"
  let ?w2 = "\<lparr>state_file = Some seen_x, posts_made = 2,
               trace = [Get_metadata, Get_records 200,
                        Post ''SF Dispatch - Unknown'' empty_body (Response 200 ()), Sleep 1,
                        Post ''SF Dispatch - Unknown'' empty_body (Response 500 ())]\<rparr>"
  have h1: "metadata_result net_abc = Inr (JStr ''t1'')"
    by code_simp
  have h2: "records_result net_abc = Inr [call_with_id ''A'', call_with_id ''B'', call_with_id ''C'']"
    by (simp add: net_abc_def records_result_cases net_of_def)
  have h3: "seen_ids (load_state ?w) \<noteq> []" "JStr ''t1'' \<noteq> rows_updated_at (load_state ?w)"
    by (simp_all add: load_state_def start_def seen_x_def)
  have ids: "call_identity (call_with_id ''A'') = JStr ''A''"
    "call_identity (call_with_id ''B'') = JStr ''B''"
    "call_identity (call_with_id ''C'') = JStr ''C''"
    by (simp_all add: call_with_id_def call_identity_def py_or_def get_def get_default_def)
  have h5: "find_new_calls (seen_ids (load_state ?w))
              [call_with_id ''A'', call_with_id ''B'', call_with_id ''C''] =
            [call_with_id ''A'', call_with_id ''B'', call_with_id ''C'']"
    by (simp add: find_new_calls_def load_state_def start_def seen_x_def ids)
  have h10: "send_notification_with_backoff net_abc (call_title (call_with_id ''A''))
               (format_call example_timestamps (call_with_id ''A'')) 5
               (emit (Get_records 200) (emit Get_metadata ?w)) = (True, ?w1)"
    by code_simp
  have h11: "send_notification_with_backoff net_abc (call_title (call_with_id ''B''))
               (format_call example_timestamps (call_with_id ''B'')) 5 (sleep 1 ?w1) = (False, ?w2)"
    by code_simp
  have tr: "truthy (call_identity (call_with_id ''A''))" "truthy (call_identity (call_with_id ''B''))"
    "truthy (call_identity (call_with_id ''C''))"
    "distinct [call_identity (call_with_id ''A''), call_identity (call_with_id ''B''),
               call_identity (call_with_id ''C'')]"
    by (simp_all add: ids)
  note t = partial_failure_stops[OF h1 h2 h3 h5 tr h10 h11]
  have s: "load_state ?w2 = seen_x" "load_state ?w = seen_x"
    by (simp_all add: load_state_def start_def)
  show ?thesis
    using t by (simp add: ids load_state_def start_def seen_x_def seen_xa_def list_of_seen_def)
qed

section \<open>The run controller: records without identity\<close>

lemma deliver_first_accepted:
  assumes "accepted (post_reply net (posts_made w))"
  shows "send_notification_with_backoff net t m 5 w =
           (True, w\<lparr>posts_made := Suc (posts_made w),
                    trace := trace w @ [Post t m (post_reply net (posts_made w))]\<rparr>)"
  using deliver_success[of 0 net w 5 t m] assms by simp

lemma notify_loop_all_accepted:
  assumes "\<forall>k. accepted (post_reply net k)"
  shows "\<exists>w' tr. notify_loop fromisoformat net n ics sent w =
                    (sent @ filter truthy (map (\<lambda>ic. call_identity (snd ic)) ics), w') \<and>
                  trace w' = trace w @ tr \<and>
                  delivered tr = map (\<lambda>ic. (call_title (snd ic), format_call fromisoformat (snd ic))) ics"
proof (induction ics arbitrary: sent w)
  case Nil
  then show ?case by simp
next
  case (Cons ic ics)
  obtain i c where ic: "ic = (i, c)" by (cases ic)
  let ?r = "post_reply net (posts_made w)"
  let ?w1 = "w\<lparr>posts_made := Suc (posts_made w),
                trace := trace w @ [Post (call_title c) (format_call fromisoformat c) ?r]\<rparr>"
  define sent1 where "sent1 = (if truthy (call_identity c) then sent @ [call_identity c] else sent)"
  define pause where "pause = (if int i < int n - 1 then [Sleep 1] else [])"
  define w2 where "w2 = (if int i < int n - 1 then sleep 1 ?w1 else ?w1)"
  have acc: "accepted ?r" using assms by simp
  have step: "notify_loop fromisoformat net n (ic # ics) sent w = notify_loop fromisoformat net n ics sent1 w2"
    unfolding ic by (simp add: deliver_first_accepted[OF acc] sent1_def w2_def Let_def)
  from Cons.IH[of sent1 w2] obtain w' tr where
    loop: "notify_loop fromisoformat net n ics sent1 w2 =
             (sent1 @ filter truthy (map (\<lambda>ic. call_identity (snd ic)) ics), w')" and
    tr: "trace w' = trace w2 @ tr" and
    del: "delivered tr = map (\<lambda>ic. (call_title (snd ic), format_call fromisoformat (snd ic))) ics"
    by blast
  let ?tr = "[Post (call_title c) (format_call fromisoformat c) ?r] @ pause @ tr"
  have a: "notify_loop fromisoformat net n (ic # ics) sent w =
             (sent @ filter truthy (map (\<lambda>ic. call_identity (snd ic)) (ic # ics)), w')"
    unfolding step loop by (simp add: sent1_def ic)
  have b: "trace w' = trace w @ ?tr"
    unfolding tr by (simp add: w2_def pause_def)
  have c: "delivered ?tr = map (\<lambda>ic. (call_title (snd ic), format_call fromisoformat (snd ic))) (ic # ics)"
    using acc del by (simp add: delivered_append pause_def ic)
  show ?case
    by (rule exI[of _ w'], rule exI[of _ ?tr]) (intro conjI a b c)
qed

lemma falsy_is_new:
  assumes "\<not> truthy (call_identity c)" and "c \<in> set calls" and "seen \<noteq> []"
    and "\<forall>i\<in>set seen. truthy i"
  shows "c \<in> set (find_new_calls seen calls)"
  using assms by (auto simp: find_new_calls_def)

lemma run_gains_truthy:
  assumes "check_and_notify fromisoformat net w = (r, w')"
  shows "\<forall>i\<in>set (seen_ids (load_state w')) - set (seen_ids (load_state w)). truthy i"
  using run_effect[OF assms]
proof (elim disjE exE conjE)
  assume "state_file w' = state_file w"
  then have "load_state w' = load_state w" by (rule load_state_cong)
  then show ?thesis by simp
next
  fix tok calls sent tr
  assume "load_state w' = \<lparr>seen_ids = list_of_seen (seen_ids (load_state w)) @ sent,
                            rows_updated_at = tok\<rparr>"
    and "\<forall>i\<in>set sent. truthy i \<and>
           (\<exists>c\<in>set (find_new_calls (seen_ids (load_state w)) calls).
              call_identity c = i \<and> (call_title c, format_call fromisoformat c) \<in> set (delivered tr))"
  then show ?thesis by auto
qed

lemma renotified_when_accepted:
  assumes "check_and_notify fromisoformat net (start stored) = (r, w')"
    and "metadata_result net = Inr tok" and "records_result net = Inr calls"
    and "seen_ids (load_state (start stored)) \<noteq> []"
    and "tok \<noteq> rows_updated_at (load_state (start stored))"
    and "\<forall>i\<in>set (seen_ids (load_state (start stored))). truthy i"
    and "\<forall>k. accepted (post_reply net k)"
    and "c \<in> set calls" and "\<not> truthy (call_identity c)"
  shows "(call_title c, format_call fromisoformat c) \<in> set (delivered (trace w')) \<and>
         call_identity c \<notin> set (seen_ids (load_state w'))"
proof -
  let ?w = "start stored"
  let ?seen = "seen_ids (load_state ?w)"
  let ?new = "find_new_calls ?seen calls"
  let ?w2 = "emit (Get_records 200) (emit Get_metadata ?w)"
  let ?sent = "filter truthy (map (\<lambda>ic. call_identity (snd ic)) (enumerate 0 ?new))"
  from notify_loop_all_accepted[OF assms(7), where fromisoformat = fromisoformat
      and n = "length ?new" and ics = "enumerate 0 ?new" and sent = "[]" and w = ?w2]
  obtain w3 tr where
    loop: "notify_loop fromisoformat net (length ?new) (enumerate 0 ?new) [] ?w2 = (?sent, w3)" and
    tr: "trace w3 = trace ?w2 @ tr" and
    del: "delivered tr = map (\<lambda>ic. (call_title (snd ic), format_call fromisoformat (snd ic))) (enumerate 0 ?new)"
    by auto
  let ?st = "\<lparr>seen_ids = list_of_seen ?seen @ ?sent, rows_updated_at = tok\<rparr>"
  have "check_and_notify fromisoformat net ?w = (Inr (), save_state ?st w3)"
    by (rule run_completes[OF assms(2) _ assms(3) loop]) (use assms(5) in simp)
  with assms(1) have w': "w' = save_state ?st w3" by simp
  have "c \<in> set ?new"
    by (rule falsy_is_new[OF assms(9,8,4,6)])
  then have "c \<in> snd ` set (enumerate 0 ?new)"
    by (simp add: snd_set_enumerate)
  then have "(call_title c, format_call fromisoformat c) \<in> set (delivered tr)"
    unfolding del by force
  then have "(call_title c, format_call fromisoformat c) \<in> set (delivered (trace w'))"
    by (simp add: w' tr delivered_append)
  moreover have "call_identity c \<notin> set (seen_ids (load_state w'))"
    using assms(6,9) by (auto simp: w')
  ultimately show ?thesis by simp
qed

lemma hard_failure_not_accepted: "hard_failure r \<Longrightarrow> \<not> accepted r"
  by (cases r) (auto simp: accepted_def hard_failure_def raise_for_status_def)

lemma backoff_loop_last_post:
  "a < M \<Longrightarrow> backoff_loop net t m M [a..<M] b w = (ok, w') \<Longrightarrow>
   \<exists>tr r. trace w' = trace w @ tr @ [Post t m r] \<and> (ok \<longleftrightarrow> accepted r)"
proof (induction "M - a" arbitrary: a b w)
  case 0
  then show ?case by simp
next
  case (Suc d)
  let ?r = "post_reply net (posts_made w)"
  let ?w1 = "w\<lparr>posts_made := Suc (posts_made w), trace := trace w @ [Post t m ?r]\<rparr>"
  have upt: "[a..<M] = a # [Suc a..<M]"
    using Suc.prems(1) by (simp add: upt_conv_Cons)
  note run = Suc.prems(2)[unfolded upt]
  consider (acc) "accepted ?r" | (hard) "hard_failure ?r" | (limited) "?r = Response 429 ()"
    using reply_cases by blast
  then show ?case
  proof cases
    case acc
    then have "ok" "w' = ?w1"
      using run unfolding backoff_loop_accepted[OF acc] by auto
    with acc have "trace w' = trace w @ [] @ [Post t m ?r] \<and> (ok \<longleftrightarrow> accepted ?r)" by simp
    then show ?thesis by blast
  next
    case hard
    then have "\<not> ok" "w' = ?w1"
      using run unfolding backoff_loop_hard[OF hard] by auto
    with hard_failure_not_accepted[OF hard]
    have "trace w' = trace w @ [] @ [Post t m ?r] \<and> (ok \<longleftrightarrow> accepted ?r)" by simp
    then show ?thesis by blast
  next
    case limited
    have not_acc: "\<not> accepted (Response 429 ())"
      by (simp add: accepted_def)
    show ?thesis
    proof (cases "int a < int M - 1")
      case True
      let ?w2 = "w\<lparr>posts_made := Suc (posts_made w),
                   trace := trace w @ [Post t m (Response 429 ()), Sleep b]\<rparr>"
      have more: "Suc a < M" "d = M - Suc a"
        using True Suc.hyps(2) by simp_all
      have "backoff_loop net t m M [Suc a..<M] (min (b * 2) max_backoff) ?w2 = (ok, w')"
        using run True unfolding backoff_loop_429[OF limited] by simp
      from Suc.hyps(1)[OF more(2) more(1) this] obtain tr r where
        "trace w' = trace ?w2 @ tr @ [Post t m r]" "ok \<longleftrightarrow> accepted r"
        by blast
      then have "trace w' = trace w @ ([Post t m (Response 429 ()), Sleep b] @ tr) @ [Post t m r] \<and>
                 (ok \<longleftrightarrow> accepted r)"
        by simp
      then show ?thesis by blast
    next
      case False
      then have "\<not> ok" "w' = w\<lparr>posts_made := Suc (posts_made w),
                                  trace := trace w @ [Post t m (Response 429 ())]\<rparr>"
        using run unfolding backoff_loop_429[OF limited] by auto
      with not_acc have "trace w' = trace w @ [] @ [Post t m (Response 429 ())] \<and>
                 (ok \<longleftrightarrow> accepted (Response 429 ()))"
        by simp
      then show ?thesis by blast
    qed
  qed
qed

lemma deliver_last_post:
  assumes "send_notification_with_backoff net t m 5 w = (ok, w')"
  shows "\<exists>tr r. trace w' = trace w @ tr @ [Post t m r] \<and> (ok \<longleftrightarrow> accepted r)"
  using backoff_loop_last_post[of 0 5 net t m 2 w ok w'] assms
  by (simp add: send_notification_with_backoff_def)

text \<open>
  The loop POSTs for every call handed to it, unless it stops: then the last event is
  a POST that was not accepted.
\<close>

lemma notify_loop_attempts:
  "notify_loop fromisoformat net n ics sent w = (sent', w') \<Longrightarrow>
   \<exists>tr. trace w' = trace w @ tr \<and>
     ((\<forall>c\<in>snd ` set ics. \<exists>r. Post (call_title c) (format_call fromisoformat c) r \<in> set tr) \<or>
      (\<exists>tr0 t m r. tr = tr0 @ [Post t m r] \<and> \<not> accepted r))"
proof (induction ics arbitrary: sent w)
  case Nil
  then show ?case by simp
next
  case (Cons ic ics)
  obtain i c where ic: "ic = (i, c)" by (cases ic)
  obtain ok w1 where
    d: "send_notification_with_backoff net (call_title c) (format_call fromisoformat c) 5 w = (ok, w1)"
    by (cases "send_notification_with_backoff net (call_title c) (format_call fromisoformat c) 5 w")
  from deliver_last_post[OF d] obtain tr1 r where
    tr1: "trace w1 = trace w @ tr1 @ [Post (call_title c) (format_call fromisoformat c) r]" and
    ok: "ok \<longleftrightarrow> accepted r"
    by blast
  show ?case
  proof (cases ok)
    case False
    with Cons.prems ic d have "w' = w1" by simp
    with tr1 ok False
    have "trace w' = trace w @ (tr1 @ [Post (call_title c) (format_call fromisoformat c) r]) \<and>
          (\<exists>tr0 t m r'. tr1 @ [Post (call_title c) (format_call fromisoformat c) r] = tr0 @ [Post t m r'] \<and>
             \<not> accepted r')"
      by simp
    then show ?thesis by blast
  next
    case True
    define sent1 where "sent1 = (if truthy (call_identity c) then sent @ [call_identity c] else sent)"
    define pause where "pause = (if int i < int n - 1 then [Sleep 1] else [])"
    define w2 where "w2 = (if int i < int n - 1 then sleep 1 w1 else w1)"
    have rec: "notify_loop fromisoformat net n ics sent1 w2 = (sent', w')"
      using Cons.prems ic d True
      by (auto simp add: sent1_def w2_def Let_def split: if_splits)
    have w2: "trace w2 = trace w @ tr1 @ [Post (call_title c) (format_call fromisoformat c) r] @ pause"
      by (simp add: w2_def pause_def tr1)
    from Cons.IH[OF rec] obtain tr2 where
      tr2: "trace w' = trace w2 @ tr2" and
      alt: "(\<forall>c\<in>snd ` set ics. \<exists>r. Post (call_title c) (format_call fromisoformat c) r \<in> set tr2) \<or>
            (\<exists>tr0 t m r. tr2 = tr0 @ [Post t m r] \<and> \<not> accepted r)"
      by blast
    let ?tr = "tr1 @ [Post (call_title c) (format_call fromisoformat c) r] @ pause @ tr2"
    have a: "trace w' = trace w @ ?tr" using tr2 w2 by simp
    from alt have
      "(\<forall>c\<in>snd ` set (ic # ics). \<exists>r. Post (call_title c) (format_call fromisoformat c) r \<in> set ?tr) \<or>
       (\<exists>tr0 t m r. ?tr = tr0 @ [Post t m r] \<and> \<not> accepted r)"
    proof
      assume "\<forall>c\<in>snd ` set ics. \<exists>r. Post (call_title c) (format_call fromisoformat c) r \<in> set tr2"
      then have "\<forall>c\<in>snd ` set (ic # ics). \<exists>r. Post (call_title c) (format_call fromisoformat c) r \<in> set ?tr"
        unfolding ic by auto
      then show ?thesis ..
    next
      assume "\<exists>tr0 t m r. tr2 = tr0 @ [Post t m r] \<and> \<not> accepted r"
      then obtain tr0 t' m' r' where "tr2 = tr0 @ [Post t' m' r']" "\<not> accepted r'" by blast
      then have "?tr = (tr1 @ [Post (call_title c) (format_call fromisoformat c) r] @ pause @ tr0) @ [Post t' m' r'] \<and>
                 \<not> accepted r'"
        by simp
      then show ?thesis by blast
    qed
    with a show ?thesis by blast
  qed
qed

lemma attempted_or_stopped:
  assumes "check_and_notify fromisoformat net (start stored) = (r, w')"
    and "metadata_result net = Inr tok" and "records_result net = Inr calls"
    and "seen_ids (load_state (start stored)) \<noteq> []"
    and "tok \<noteq> rows_updated_at (load_state (start stored))"
    and "\<forall>i\<in>set (seen_ids (load_state (start stored))). truthy i"
    and "c \<in> set calls" and "\<not> truthy (call_identity c)"
  shows "(\<exists>rp. Post (call_title c) (format_call fromisoformat c) rp \<in> set (trace w')) \<or>
         (\<exists>tr t m rp st. trace w' = tr @ [Post t m rp, Write_state st] \<and> \<not> accepted rp)"
proof -
  let ?w = "start stored"
  let ?seen = "seen_ids (load_state ?w)"
  let ?new = "find_new_calls ?seen calls"
  let ?w2 = "emit (Get_records 200) (emit Get_metadata ?w)"
  obtain sent w3 where
    loop: "notify_loop fromisoformat net (length ?new) (enumerate 0 ?new) [] ?w2 = (sent, w3)"
    by (cases "notify_loop fromisoformat net (length ?new) (enumerate 0 ?new) [] ?w2")
  let ?st = "\<lparr>seen_ids = list_of_seen ?seen @ sent, rows_updated_at = tok\<rparr>"
  have "check_and_notify fromisoformat net ?w = (Inr (), save_state ?st w3)"
    by (rule run_completes[OF assms(2) _ assms(3) loop]) (use assms(5) in simp)
  with assms(1) have w': "trace w' = trace w3 @ [Write_state ?st]" by auto
  from notify_loop_attempts[OF loop] obtain tr where
    tr: "trace w3 = trace ?w2 @ tr" and
    alt: "(\<forall>c\<in>snd ` set (enumerate 0 ?new). \<exists>r. Post (call_title c) (format_call fromisoformat c) r \<in> set tr) \<or>
          (\<exists>tr0 t m r. tr = tr0 @ [Post t m r] \<and> \<not> accepted r)"
    by blast
  have new: "c \<in> snd ` set (enumerate 0 ?new)"
    unfolding snd_set_enumerate by (rule falsy_is_new[OF assms(8,7,4,6)])
  from alt show ?thesis
  proof
    assume "\<forall>c\<in>snd ` set (enumerate 0 ?new). \<exists>r. Post (call_title c) (format_call fromisoformat c) r \<in> set tr"
    with new obtain rp where "Post (call_title c) (format_call fromisoformat c) rp \<in> set tr" by blast
    then have "Post (call_title c) (format_call fromisoformat c) rp \<in> set (trace w')"
      by (simp add: w' tr)
    then show ?thesis by blast
  next
    assume "\<exists>tr0 t m r. tr = tr0 @ [Post t m r] \<and> \<not> accepted r"
    then obtain tr0 t m rp where "tr = tr0 @ [Post t m rp]" "\<not> accepted rp" by blast
    then have "trace w' = (trace ?w2 @ tr0) @ [Post t m rp, Write_state ?st] \<and> \<not> accepted rp"
      by (simp add: w' tr)
    then show ?thesis by blast
  qed
qed

text \<open>
  C10. A run adds to the seen-set only truthy identities; so if the persisted seen-set
  holds no \<open>None\<close>, \<open>False\<close> or empty identifier before a run (the default state
  holds none), it holds none after it. A record with neither \<open>id\<close> nor \<open>cad_number\<close> has
  the identity \<open>None\<close>; a record whose identity is falsy is among the new calls of every
  run that computes them from such a seen-set, and such a run POSTs its notification
  unless it stops before, at a POST that was not accepted; when the push endpoint
  accepts every POST, its notification is delivered in that run and its identity is
  still not in the seen-set afterwards.
\<close>

theorem identity_less_records:
  "(check_and_notify fromisoformat net (start stored) = (r, w') \<longrightarrow>
      (\<forall>i\<in>set (seen_ids (load_state w')) - set (seen_ids (load_state (start stored))). truthy i))
 \<and> (check_and_notify fromisoformat net (start stored) = (r, w') \<and>
     (\<forall>i\<in>set (seen_ids (load_state (start stored))). truthy i) \<longrightarrow>
      (\<forall>i\<in>set (seen_ids (load_state w')). truthy i))
 \<and> seen_ids (load_state (start None)) = []
 \<and> (c ''id'' = None \<and> c ''cad_number'' = None \<longrightarrow> call_identity c = JNull)
 \<and> (\<not> truthy (call_identity c) \<and> c \<in> set calls \<and> seen \<noteq> [] \<and> (\<forall>i\<in>set seen. truthy i) \<longrightarrow>
      c \<in> set (find_new_calls seen calls))
 \<and> (check_and_notify fromisoformat net (start stored) = (r, w') \<and>
     metadata_result net = Inr tok \<and> records_result net = Inr calls \<and>
     seen_ids (load_state (start stored)) \<noteq> [] \<and>
     tok \<noteq> rows_updated_at (load_state (start stored)) \<and>
     (\<forall>i\<in>set (seen_ids (load_state (start stored))). truthy i) \<and>
     c \<in> set calls \<and> \<not> truthy (call_identity c) \<longrightarrow>
      (\<exists>rp. Post (call_title c) (format_call fromisoformat c) rp \<in> set (trace w')) \<or>
      (\<exists>tr t m rp st. trace w' = tr @ [Post t m rp, Write_state st] \<and> \<not> accepted rp))
 \<and> (check_and_notify fromisoformat net (start stored) = (r, w') \<and>
     metadata_result net = Inr tok \<and> records_result net = Inr calls \<and>
     seen_ids (load_state (start stored)) \<noteq> [] \<and>
     tok \<noteq> rows_updated_at (load_state (start stored)) \<and>
     (\<forall>i\<in>set (seen_ids (load_state (start stored))). truthy i) \<and>
     (\<forall>k. accepted (post_reply net k)) \<and> c \<in> set calls \<and> \<not> truthy (call_identity c) \<longrightarrow>
      (call_title c, format_call fromisoformat c) \<in> set (delivered (trace w')) \<and>
      call_identity c \<notin> set (seen_ids (load_state w')))"
proof (intro conjI impI)
  assume "check_and_notify fromisoformat net (start stored) = (r, w')"
  then show "\<forall>i\<in>set (seen_ids (load_state w')) - set (seen_ids (load_state (start stored))). truthy i"
    by (rule run_gains_truthy)
next
  assume "check_and_notify fromisoformat net (start stored) = (r, w') \<and>
     (\<forall>i\<in>set (seen_ids (load_state (start stored))). truthy i)"
  then show "\<forall>i\<in>set (seen_ids (load_state w')). truthy i"
    using run_gains_truthy[of fromisoformat net "start stored" r w'] by blast
next
  show "seen_ids (load_state (start None)) = []"
    by (simp add: load_state_def start_def)
next
  assume "c ''id'' = None \<and> c ''cad_number'' = None"
  then show "call_identity c = JNull"
    by (simp add: call_identity_def py_or_def get_def get_default_def)
next
  assume "\<not> truthy (call_identity c) \<and> c \<in> set calls \<and> seen \<noteq> [] \<and> (\<forall>i\<in>set seen. truthy i)"
  then show "c \<in> set (find_new_calls seen calls)"
    using falsy_is_new[of c calls seen] by blast
next
  assume "check_and_notify fromisoformat net (start stored) = (r, w') \<and>
     metadata_result net = Inr tok \<and> records_result net = Inr calls \<and>
     seen_ids (load_state (start stored)) \<noteq> [] \<and>
     tok \<noteq> rows_updated_at (load_state (start stored)) \<and>
     (\<forall>i\<in>set (seen_ids (load_state (start stored))). truthy i) \<and>
     c \<in> set calls \<and> \<not> truthy (call_identity c)"
  then show "(\<exists>rp. Post (call_title c) (format_call fromisoformat c) rp \<in> set (trace w')) \<or>
      (\<exists>tr t m rp st. trace w' = tr @ [Post t m rp, Write_state st] \<and> \<not> accepted rp)"
    by (intro attempted_or_stopped[of fromisoformat net stored r w' tok calls c]) simp_all
next
  assume h: "check_and_notify fromisoformat net (start stored) = (r, w') \<and>
     metadata_result net = Inr tok \<and> records_result net = Inr calls \<and>
     seen_ids (load_state (start stored)) \<noteq> [] \<and>
     tok \<noteq> rows_updated_at (load_state (start stored)) \<and>
     (\<forall>i\<in>set (seen_ids (load_state (start stored))). truthy i) \<and>
     (\<forall>k. accepted (post_reply net k)) \<and> c \<in> set calls \<and> \<not> truthy (call_identity c)"
  then have "(call_title c, format_call fromisoformat c) \<in> set (delivered (trace w')) \<and>
      call_identity c \<notin> set (seen_ids (load_state w'))"
    by (intro renotified_when_accepted[of fromisoformat net stored r w' tok calls c]) simp_all
  then show "(call_title c, format_call fromisoformat c) \<in> set (delivered (trace w'))"
    and "call_identity c \<notin> set (seen_ids (load_state w'))"
    by simp_all
qed

lemma run_net_anonymous:
  "check_and_notify fromisoformat net_anonymous (start (Some seen_x)) =
     (Inr (), \<lparr>state_file = Some seen_x1, posts_made = 1,
               trace = [Get_metadata, Get_records 200,
                        Post ''SF Dispatch - Unknown'' anonymous_body (Response 200 ()),
                        Write_state seen_x1]\<rparr>)"
  by code_simp

theorem identity_less_records_witness:
  "call_identity anonymous_call = JNull
 \<and> anonymous_call \<in> set (find_new_calls (seen_ids seen_x) [anonymous_call])
 \<and> (call_title anonymous_call, format_call example_timestamps anonymous_call) \<in>
     set (delivered [Get_metadata, Get_records 200,
                     Post ''SF Dispatch - Unknown'' anonymous_body (Response 200 ()),
                     Write_state seen_x1])
 \<and> JNull \<notin> set (seen_ids seen_x1)
 \<and> list_all truthy (seen_ids seen_x1)"
proof -
  let ?w = "start (Some seen_x)"
  let ?w' = "\<lparr>state_file = Some seen_x1, posts_made = 1,
               trace = [Get_metadata, Get_records 200,
                        Post ''SF Dispatch - Unknown'' anonymous_body (Response 200 ()),
                        Write_state seen_x1]\<rparr>"
  note t = identity_less_records[where net = net_anonymous and stored = "Some seen_x"
      and r = "Inr ()" and w' = ?w' and c = anonymous_call and calls = "[anonymous_call]"
      and seen = "seen_ids seen_x" and tok = "JStr ''t1''"]
  have s: "load_state ?w = seen_x" "load_state ?w' = seen_x1"
    by (simp_all add: load_state_def start_def)
  have keys: "anonymous_call ''id'' = None \<and> anonymous_call ''cad_number'' = None"
    by (simp add: anonymous_call_def)
  have id: "call_identity anonymous_call = JNull"
    using t keys by blast
  have old: "\<forall>i\<in>set (seen_ids (load_state ?w)). truthy i" "seen_ids (load_state ?w) \<noteq> []"
    "JStr ''t1'' \<noteq> rows_updated_at (load_state ?w)"
    unfolding s by (simp_all add: seen_x_def)
  have new: "anonymous_call \<in> set (find_new_calls (seen_ids seen_x) [anonymous_call])"
    using t id old(1,2) unfolding s by simp
  have h: "metadata_result net_anonymous = Inr (JStr ''t1'')"
    "records_result net_anonymous = Inr [anonymous_call]"
    "\<forall>k. accepted (post_reply net_anonymous k)"
    by (simp_all add: net_anonymous_def net_of_def metadata_result_cases records_result_cases
        get_def get_default_def always_ok_def accepted_def raise_for_status_def)
  have all: "\<forall>i\<in>set (seen_ids (load_state ?w')). truthy i"
    using t run_net_anonymous[where fromisoformat = example_timestamps] old(1) by blast
  have del: "(call_title anonymous_call, format_call example_timestamps anonymous_call) \<in> set (delivered (trace ?w')) \<and>
      call_identity anonymous_call \<notin> set (seen_ids (load_state ?w'))"
    using t run_net_anonymous[where fromisoformat = example_timestamps] h old id by simp
  show ?thesis
    using id new all del unfolding s by (simp add: list_all_iff)
qed

section \<open>Where the code departs from its comments\<close>

text \<open>
  A first run (empty persisted seen-set) whose fetch succeeds sends nothing, and writes
  an empty seen-set again: \<open>current_ids\<close> is computed and printed (``recording ...
  existing calls''), and never stored.
\<close>

lemma first_run_stores_nothing:
  assumes "seen_ids (load_state w) = []" and "metadata_result net = Inr tok"
    and "records_result net = Inr calls"
  shows "check_and_notify fromisoformat net w =
           (Inr (), w\<lparr>state_file := Some \<lparr>seen_ids = [], rows_updated_at = tok\<rparr>,
                      trace := trace w @ [Get_metadata, Get_records 200,
                                          Write_state \<lparr>seen_ids = [], rows_updated_at = tok\<rparr>]\<rparr>)"
proof -
  have "find_new_calls (seen_ids (load_state w)) calls = []"
    using assms(1) by (simp add: find_new_calls_def)
  then have "check_and_notify fromisoformat net w =
      (Inr (), save_state \<lparr>seen_ids = list_of_seen (seen_ids (load_state w)) @ [],
                           rows_updated_at = tok\<rparr> (emit (Get_records 200) (emit Get_metadata w)))"
    by (intro run_completes[OF assms(2) _ assms(3)]) (simp_all add: assms(1))
  then show ?thesis
    by (simp add: assms(1) list_of_seen_def save_state_def emit_def)
qed

text \<open>
  C1, at a concrete input. No state file; the metadata query answers token \<open>t1\<close>, the
  fetch answers one record with \<open>id = "A"\<close>. The run sends no notification, and the
  seen-set it persists is empty, not \<open>{"A"}\<close>.
\<close>

theorem first_run_example:
  "check_and_notify fromisoformat (net_a ''t1'') (start None) =
     (Inr (), \<lparr>state_file = Some fresh_t1, posts_made = 0,
               trace = [Get_metadata, Get_records 200, Write_state fresh_t1]\<rparr>)
 \<and> records_result (net_a ''t1'') = Inr [call_with_id ''A'']
 \<and> map call_identity [call_with_id ''A''] = [JStr ''A'']
 \<and> seen_ids fresh_t1 = []"
proof -
  have "check_and_notify fromisoformat (net_a ''t1'') (start None) =
     (Inr (), \<lparr>state_file = Some fresh_t1, posts_made = 0,
               trace = [Get_metadata, Get_records 200, Write_state fresh_t1]\<rparr>)"
    by code_simp
  moreover have "records_result (net_a ''t1'') = Inr [call_with_id ''A'']"
    by (simp add: net_a_def net_of_def records_result_cases)
  moreover have "map call_identity [call_with_id ''A''] = [JStr ''A'']"
    by (simp add: call_with_id_def call_identity_def py_or_def get_def get_default_def)
  ultimately show ?thesis
    by (simp add: fresh_t1_def)
qed

text \<open>
  C2, at a concrete input. The seen-set is \<open>{"X"}\<close> with token \<open>t0\<close>; the dataset moves
  to token \<open>t1\<close> and holds the new calls A, B, C. In the first run the POST for A is
  accepted and the POST for B is answered 500: the run stops, and persists
  \<open>{"X", "A"}\<close> with token \<open>t1\<close>. In the next run the token is still \<open>t1\<close> and the push
  endpoint accepts everything: the run is skipped after the metadata query, B and C
  are neither fetched nor POSTed.
\<close>

theorem undelivered_not_retried_example:
  "check_and_notify fromisoformat net_abc (start (Some seen_x)) =
     (Inr (), \<lparr>state_file = Some seen_xa, posts_made = 2,
               trace = [Get_metadata, Get_records 200,
                        Post ''SF Dispatch - Unknown'' empty_body (Response 200 ()), Sleep 1,
                        Post ''SF Dispatch - Unknown'' empty_body (Response 500 ()),
                        Write_state seen_xa]\<rparr>)
 \<and> check_and_notify fromisoformat net_abc_ok (start (Some seen_xa)) =
     (Inr (), \<lparr>state_file = Some seen_xa, posts_made = 0, trace = [Get_metadata]\<rparr>)
 \<and> find_new_calls (seen_ids seen_xa) [call_with_id ''A'', call_with_id ''B'', call_with_id ''C''] =
     [call_with_id ''B'', call_with_id ''C'']"
proof -
  have "check_and_notify fromisoformat net_abc_ok (start (Some seen_xa)) =
     (Inr (), \<lparr>state_file = Some seen_xa, posts_made = 0, trace = [Get_metadata]\<rparr>)"
    by code_simp
  moreover have "find_new_calls (seen_ids seen_xa)
       [call_with_id ''A'', call_with_id ''B'', call_with_id ''C''] =
     [call_with_id ''B'', call_with_id ''C'']"
    by (simp add: find_new_calls_def seen_xa_def call_with_id_def call_identity_def py_or_def
        get_def get_default_def)
  ultimately show ?thesis
    using run_net_abc by simp
qed

text \<open>
  Once the token changes, the calls left undelivered are new calls again, as long as
  the fetch still returns them.
\<close>

lemma undelivered_new_again:
  assumes "c \<in> set calls" and "call_identity c \<notin> set seen" and "seen \<noteq> []"
  shows "c \<in> set (find_new_calls seen calls)"
  using assms by (simp add: find_new_calls_def)

end
